theory Spec2Isabelle
  imports Main
begin

section \<open>Values held in the session\<close>

text \<open>
  The application keeps Python values built from \<open>None\<close>, booleans, integers, strings, lists
  and dictionaries with string keys: what \<open>json.load\<close> returns and what \<open>json.dump\<close> writes
  without conversion. A dictionary is an association list in insertion order; a Python
  dictionary never holds a key twice. Strings are modelled over the code points below 256
  (one \<open>char\<close> each). Floating-point numbers are not modelled.
\<close>

datatype json =
    JNull
  | JBool bool
  | JInt int
  | JStr string
  | JArr "json list"
  | JObj "(string \<times> json) list"

text \<open>\<open>d[k] = v\<close> on a dictionary: an existing key keeps its place, a new one goes last.\<close>

fun dict_set :: "(string \<times> json) list \<Rightarrow> string \<Rightarrow> json \<Rightarrow> (string \<times> json) list" where
  "dict_set [] k v = [(k, v)]"
| "dict_set ((k', v') # kvs) k v =
     (if k' = k then (k, v) # kvs else (k', v') # dict_set kvs k v)"

datatype py_error = KeyError string | TypeError string | AttributeError string

definition squote :: "string \<Rightarrow> string" where
  "squote s = CHR 0x27 # s @ [CHR 0x27]"

text \<open>\<open>obj[k] = v\<close> with a string key \<open>k\<close>; the \<open>TypeError\<close> of a value that is no dictionary.\<close>

fun py_setitem :: "json \<Rightarrow> string \<Rightarrow> json \<Rightarrow> py_error + json" where
  "py_setitem (JObj kvs) k v = Inr (JObj (dict_set kvs k v))"
| "py_setitem (JArr xs) k v = Inl (TypeError ''list indices must be integers or slices, not str'')"
| "py_setitem JNull k v = Inl (TypeError (squote ''NoneType'' @ '' object does not support item assignment''))"
| "py_setitem (JBool b) k v = Inl (TypeError (squote ''bool'' @ '' object does not support item assignment''))"
| "py_setitem (JInt i) k v = Inl (TypeError (squote ''int'' @ '' object does not support item assignment''))"
| "py_setitem (JStr s) k v = Inl (TypeError (squote ''str'' @ '' object does not support item assignment''))"

text \<open>\<open>obj[k]\<close> with a string key \<open>k\<close>.\<close>

fun py_getitem :: "json \<Rightarrow> string \<Rightarrow> py_error + json" where
  "py_getitem (JObj kvs) k = (case map_of kvs k of None \<Rightarrow> Inl (KeyError k) | Some v \<Rightarrow> Inr v)"
| "py_getitem (JArr xs) k = Inl (TypeError ''list indices must be integers or slices, not str'')"
| "py_getitem (JStr s) k = Inl (TypeError (''string indices must be integers, not '' @ squote ''str''))"
| "py_getitem JNull k = Inl (TypeError (squote ''NoneType'' @ '' object is not subscriptable''))"
| "py_getitem (JBool b) k = Inl (TypeError (squote ''bool'' @ '' object is not subscriptable''))"
| "py_getitem (JInt i) k = Inl (TypeError (squote ''int'' @ '' object is not subscriptable''))"

section \<open>Decimal numerals\<close>

definition digit_char :: "nat \<Rightarrow> char" where
  "digit_char n = char_of (48 + n mod 10)"

fun dec_of_nat :: "nat \<Rightarrow> string" where
  "dec_of_nat n = (if n < 10 then [digit_char n] else dec_of_nat (n div 10) @ [digit_char (n mod 10)])"

declare dec_of_nat.simps [simp del]

text \<open>\<open>repr\<close> of a Python integer.\<close>

definition int_repr :: "int \<Rightarrow> string" where
  "int_repr i = (if i < 0 then CHR ''-'' # dec_of_nat (nat (- i)) else dec_of_nat (nat i))"

definition is_digit :: "char \<Rightarrow> bool" where
  "is_digit c = (48 \<le> (of_char c :: nat) \<and> (of_char c :: nat) \<le> 57)"

definition digit_val :: "char \<Rightarrow> nat" where
  "digit_val c = of_char c - 48"

definition nat_of_digits :: "string \<Rightarrow> nat" where
  "nat_of_digits ds = foldl (\<lambda>a c. 10 * a + digit_val c) 0 ds"

section \<open>The JSON encoder: \<open>json.dump(obj, f, indent=n)\<close>\<close>

text \<open>
  With the defaults of \<open>json.dump\<close> (\<open>ensure_ascii=True\<close>) a character of a string is
  written as itself when it is printable ASCII other than the quote and the backslash, by its
  short escape when it has one, and as \<open>\u00XX\<close> otherwise.
\<close>

definition hex_digit :: "nat \<Rightarrow> char" where
  "hex_digit n = (if n < 10 then char_of (48 + n) else char_of (87 + n))"

definition esc_char :: "char \<Rightarrow> string" where
  "esc_char c =
     (if c = CHR 0x22 then [CHR 0x5C, CHR 0x22]
      else if c = CHR 0x5C then [CHR 0x5C, CHR 0x5C]
      else if c = CHR 0x0A then [CHR 0x5C, CHR ''n'']
      else if c = CHR 0x0D then [CHR 0x5C, CHR ''r'']
      else if c = CHR 0x09 then [CHR 0x5C, CHR ''t'']
      else if c = CHR 0x0C then [CHR 0x5C, CHR ''f'']
      else if c = CHR 0x08 then [CHR 0x5C, CHR ''b'']
      else if 32 \<le> (of_char c :: nat) \<and> (of_char c :: nat) \<le> 126 then [c]
      else [CHR 0x5C, CHR ''u'', CHR ''0'', CHR ''0'',
            hex_digit ((of_char c :: nat) div 16), hex_digit ((of_char c :: nat) mod 16)])"

definition encode_string :: "string \<Rightarrow> string" where
  "encode_string s = CHR 0x22 # concat (map esc_char s) @ [CHR 0x22]"

fun join :: "string \<Rightarrow> string list \<Rightarrow> string" where
  "join sep [] = []"
| "join sep [x] = x"
| "join sep (x # y # ys) = x @ sep @ join sep (y # ys)"

definition newline_indent :: "nat \<Rightarrow> nat \<Rightarrow> string" where
  "newline_indent ind lvl = CHR 0x0A # replicate (ind * lvl) CHR '' ''"

text \<open>
  The encoder with an indent: an empty list is \<open>[]\<close> and an empty dictionary \<open>{}\<close>;
  otherwise every item stands on a line of its own, one level deeper, the items separated by
  a comma, and a key from its value by a colon and a space.
\<close>

fun iterencode :: "nat \<Rightarrow> nat \<Rightarrow> json \<Rightarrow> string" where
  "iterencode ind lvl JNull = ''null''"
| "iterencode ind lvl (JBool b) = (if b then ''true'' else ''false'')"
| "iterencode ind lvl (JInt i) = int_repr i"
| "iterencode ind lvl (JStr s) = encode_string s"
| "iterencode ind lvl (JArr xs) =
     (if xs = [] then ''[]''
      else ''['' @ newline_indent ind (Suc lvl)
           @ join ('','' @ newline_indent ind (Suc lvl)) (map (iterencode ind (Suc lvl)) xs)
           @ newline_indent ind lvl @ '']'')"
| "iterencode ind lvl (JObj kvs) =
     (if kvs = [] then ''{}''
      else ''{'' @ newline_indent ind (Suc lvl)
           @ join ('','' @ newline_indent ind (Suc lvl))
               (map (\<lambda>kv. encode_string (fst kv) @ '': '' @ iterencode ind (Suc lvl) (snd kv)) kvs)
           @ newline_indent ind lvl @ ''}'')"

definition json_dumps :: "nat \<Rightarrow> json \<Rightarrow> string" where
  "json_dumps ind v = iterencode ind 0 v"

section \<open>The JSON decoder: \<open>json.load(f)\<close>\<close>

text \<open>
  The decoder follows the scanner of Python's \<open>json\<close> module: whitespace is the space, the
  tab, the line feed and the carriage return; a string ends at the first quote that is not
  escaped and may hold no raw control character; a number with a fraction or an exponent
  is a float. \<open>None\<close> stands for the \<open>JSONDecodeError\<close>, and also for a document the model
  has no value for: a float, or a \<open>\u\<close> escape of a code point from 256 on.
\<close>

definition is_ws :: "char \<Rightarrow> bool" where
  "is_ws c = (c = CHR '' '' \<or> c = CHR 0x09 \<or> c = CHR 0x0A \<or> c = CHR 0x0D)"

definition skip_ws :: "string \<Rightarrow> string" where
  "skip_ws s = dropWhile is_ws s"

definition hex_val :: "char \<Rightarrow> nat option" where
  "hex_val c =
     (let n = (of_char c :: nat) in
      if 48 \<le> n \<and> n \<le> 57 then Some (n - 48)
      else if 97 \<le> n \<and> n \<le> 102 then Some (n - 87)
      else if 65 \<le> n \<and> n \<le> 70 then Some (n - 55)
      else None)"

definition unescape :: "char \<Rightarrow> char option" where
  "unescape e =
     (if e = CHR 0x22 then Some (CHR 0x22)
      else if e = CHR 0x5C then Some (CHR 0x5C)
      else if e = CHR ''/'' then Some (CHR ''/'')
      else if e = CHR ''b'' then Some (CHR 0x08)
      else if e = CHR ''f'' then Some (CHR 0x0C)
      else if e = CHR ''n'' then Some (CHR 0x0A)
      else if e = CHR ''r'' then Some (CHR 0x0D)
      else if e = CHR ''t'' then Some (CHR 0x09)
      else None)"

text \<open>\<open>scanstring\<close> reads a string from behind its opening quote.\<close>

fun scanstring :: "string \<Rightarrow> (string \<times> string) option" where
  "scanstring [] = None"
| "scanstring (c # cs) =
     (if c = CHR 0x22 then Some ([], cs)
      else if c = CHR 0x5C then
        (case cs of
           [] \<Rightarrow> None
         | e # r \<Rightarrow>
            if e = CHR ''u'' then
              (case r of
                 a # b # c' # d # r' \<Rightarrow>
                   (case (hex_val a, hex_val b, hex_val c', hex_val d) of
                      (Some h1, Some h2, Some h3, Some h4) \<Rightarrow>
                        (let n = ((h1 * 16 + h2) * 16 + h3) * 16 + h4 in
                         if n < 256 then
                           (case scanstring r' of
                              None \<Rightarrow> None
                            | Some (str, rest) \<Rightarrow> Some (char_of n # str, rest))
                         else None)
                    | _ \<Rightarrow> None)
               | _ \<Rightarrow> None)
            else
              (case unescape e of
                 None \<Rightarrow> None
               | Some d \<Rightarrow>
                  (case scanstring r of
                     None \<Rightarrow> None
                   | Some (str, rest) \<Rightarrow> Some (d # str, rest))))
      else if (of_char c :: nat) < 32 then None
      else
        (case scanstring cs of
           None \<Rightarrow> None
         | Some (str, rest) \<Rightarrow> Some (c # str, rest)))"

definition float_follows :: "string \<Rightarrow> bool" where
  "float_follows s =
     (case s of
        c # d # r \<Rightarrow>
          (c = CHR ''.'' \<and> is_digit d)
          \<or> ((c = CHR ''e'' \<or> c = CHR ''E'')
              \<and> (is_digit d
                  \<or> ((d = CHR ''+'' \<or> d = CHR ''-'') \<and> (case r of x # _ \<Rightarrow> is_digit x | [] \<Rightarrow> False))))
      | _ \<Rightarrow> False)"

text \<open>A number: an optional minus, then \<open>0\<close> or a digit from 1 to 9 and the digits that follow.\<close>

definition scan_number :: "string \<Rightarrow> (json \<times> string) option" where
  "scan_number s =
     (let neg = (case s of c # _ \<Rightarrow> c = CHR ''-'' | [] \<Rightarrow> False);
          s1 = (if neg then tl s else s)
      in case s1 of
           [] \<Rightarrow> None
         | d # r \<Rightarrow>
            if \<not> is_digit d then None
            else
              (let ds = (if d = CHR ''0'' then [d] else takeWhile is_digit s1);
                   rest = drop (length ds) s1
               in if float_follows rest then None
                  else Some (JInt (if neg then - int (nat_of_digits ds) else int (nat_of_digits ds)),
                             rest)))"

text \<open>The pairs of an object become a dictionary: a later pair with the same key wins.\<close>

definition dict_of_pairs :: "(string \<times> json) list \<Rightarrow> (string \<times> json) list" where
  "dict_of_pairs kvs = foldl (\<lambda>d kv. dict_set d (fst kv) (snd kv)) [] kvs"

text \<open>
  \<open>scan_once\<close> reads one value, \<open>parse_array\<close> the items of a non-empty list from its first
  item on, \<open>parse_object\<close> the pairs of a non-empty object from its first key on. The first
  argument bounds the number of nested calls; \<open>json_loads\<close> gives as many as no document of
  its length can use up.
\<close>

fun scan_once :: "nat \<Rightarrow> string \<Rightarrow> (json \<times> string) option"
  and parse_array :: "nat \<Rightarrow> string \<Rightarrow> (json list \<times> string) option"
  and parse_object :: "nat \<Rightarrow> string \<Rightarrow> ((string \<times> json) list \<times> string) option"
where
  "scan_once 0 s = None"
| "scan_once (Suc n) s =
     (case s of
        [] \<Rightarrow> None
      | c # cs \<Rightarrow>
         if c = CHR 0x22 then
           (case scanstring cs of
              None \<Rightarrow> None
            | Some (str, rest) \<Rightarrow> Some (JStr str, rest))
         else if c = CHR ''{'' then
           (let s1 = skip_ws cs in
            if take 1 s1 = ''}'' then Some (JObj [], tl s1)
            else
              (case parse_object n s1 of
                 None \<Rightarrow> None
               | Some (kvs, rest) \<Rightarrow> Some (JObj (dict_of_pairs kvs), rest)))
         else if c = CHR ''['' then
           (let s1 = skip_ws cs in
            if take 1 s1 = '']'' then Some (JArr [], tl s1)
            else
              (case parse_array n s1 of
                 None \<Rightarrow> None
               | Some (vs, rest) \<Rightarrow> Some (JArr vs, rest)))
         else if c = CHR ''n'' then (if take 4 s = ''null'' then Some (JNull, drop 4 s) else None)
         else if c = CHR ''t'' then (if take 4 s = ''true'' then Some (JBool True, drop 4 s) else None)
         else if c = CHR ''f'' then (if take 5 s = ''false'' then Some (JBool False, drop 5 s) else None)
         else scan_number s)"
| "parse_array 0 s = None"
| "parse_array (Suc n) s =
     (case scan_once n s of
        None \<Rightarrow> None
      | Some (v, r) \<Rightarrow>
         (case skip_ws r of
            [] \<Rightarrow> None
          | c # r1 \<Rightarrow>
             if c = CHR '']'' then Some ([v], r1)
             else if c = CHR '','' then
               (case parse_array n (skip_ws r1) of
                  None \<Rightarrow> None
                | Some (vs, rest) \<Rightarrow> Some (v # vs, rest))
             else None))"
| "parse_object 0 s = None"
| "parse_object (Suc n) s =
     (case s of
        [] \<Rightarrow> None
      | q # s0 \<Rightarrow>
         if q \<noteq> CHR 0x22 then None
         else
           (case scanstring s0 of
              None \<Rightarrow> None
            | Some (key, r) \<Rightarrow>
               (case skip_ws r of
                  [] \<Rightarrow> None
                | c # r1 \<Rightarrow>
                   if c \<noteq> CHR '':'' then None
                   else
                     (case scan_once n (skip_ws r1) of
                        None \<Rightarrow> None
                      | Some (v, r2) \<Rightarrow>
                         (case skip_ws r2 of
                            [] \<Rightarrow> None
                          | d # r3 \<Rightarrow>
                             if d = CHR ''}'' then Some ([(key, v)], r3)
                             else if d = CHR '','' then
                               (case parse_object n (skip_ws r3) of
                                  None \<Rightarrow> None
                                | Some (kvs, rest) \<Rightarrow> Some ((key, v) # kvs, rest))
                             else None)))))"

definition json_loads :: "string \<Rightarrow> json option" where
  "json_loads s =
     (case scan_once (2 * length s + 2) (skip_ws s) of
        None \<Rightarrow> None
      | Some (v, rest) \<Rightarrow> if skip_ws rest = [] then Some v else None)"

section \<open>Strings and the clock\<close>

text \<open>\<open>str.split(sep)\<close> for a separator of one character: one piece more than separators.\<close>

fun split_on :: "char \<Rightarrow> string \<Rightarrow> string list" where
  "split_on sep [] = [[]]"
| "split_on sep (c # cs) =
     (if c = sep then [] # split_on sep cs
      else (case split_on sep cs of [] \<Rightarrow> [[c]] | p # ps \<Rightarrow> (c # p) # ps))"

text \<open>The whitespace \<open>str.strip()\<close> removes, among the code points below 256.\<close>

definition py_isspace :: "char \<Rightarrow> bool" where
  "py_isspace c =
     (let n = (of_char c :: nat) in (9 \<le> n \<and> n \<le> 13) \<or> (28 \<le> n \<and> n \<le> 32) \<or> n = 133 \<or> n = 160)"

definition py_strip :: "string \<Rightarrow> string" where
  "py_strip s = rev (dropWhile py_isspace (rev (dropWhile py_isspace s)))"

text \<open>\<open>str.lower()\<close> among the code points below 256: the ASCII and the Latin-1 capitals.\<close>

definition py_lower_char :: "char \<Rightarrow> char" where
  "py_lower_char c =
     (let n = (of_char c :: nat) in
      if (65 \<le> n \<and> n \<le> 90) \<or> (192 \<le> n \<and> n \<le> 222 \<and> n \<noteq> 215) then char_of (n + 32) else c)"

definition py_lower :: "string \<Rightarrow> string" where
  "py_lower s = map py_lower_char s"

text \<open>\<open>s.replace(a, b)\<close> for strings \<open>a\<close>, \<open>b\<close> of one character.\<close>

definition replace_char :: "char \<Rightarrow> char \<Rightarrow> string \<Rightarrow> string" where
  "replace_char a b s = map (\<lambda>c. if c = a then b else c) s"

text \<open>\<open>repr\<close> and \<open>str\<close> of a value, as an f-string formats it.\<close>

definition py_printable :: "char \<Rightarrow> bool" where
  "py_printable c = (let n = (of_char c :: nat) in (32 \<le> n \<and> n \<le> 126) \<or> (161 \<le> n \<and> n \<noteq> 173))"

definition repr_char :: "char \<Rightarrow> char \<Rightarrow> string" where
  "repr_char q c =
     (if c = q \<or> c = CHR 0x5C then [CHR 0x5C, c]
      else if c = CHR 0x09 then [CHR 0x5C, CHR ''t'']
      else if c = CHR 0x0A then [CHR 0x5C, CHR ''n'']
      else if c = CHR 0x0D then [CHR 0x5C, CHR ''r'']
      else if py_printable c then [c]
      else [CHR 0x5C, CHR ''x'', hex_digit ((of_char c :: nat) div 16), hex_digit ((of_char c :: nat) mod 16)])"

definition str_repr :: "string \<Rightarrow> string" where
  "str_repr s =
     (let q = (if CHR 0x27 \<in> set s \<and> CHR 0x22 \<notin> set s then CHR 0x22 else CHR 0x27)
      in q # concat (map (repr_char q) s) @ [q])"

fun py_repr :: "json \<Rightarrow> string" where
  "py_repr JNull = ''None''"
| "py_repr (JBool b) = (if b then ''True'' else ''False'')"
| "py_repr (JInt i) = int_repr i"
| "py_repr (JStr s) = str_repr s"
| "py_repr (JArr xs) = ''['' @ join '', '' (map py_repr xs) @ '']''"
| "py_repr (JObj kvs) =
     ''{'' @ join '', '' (map (\<lambda>kv. str_repr (fst kv) @ '': '' @ py_repr (snd kv)) kvs) @ ''}''"

definition py_str :: "json \<Rightarrow> string" where
  "py_str v = (case v of JStr s \<Rightarrow> s | _ \<Rightarrow> py_repr v)"

definition py_type_name :: "json \<Rightarrow> string" where
  "py_type_name v =
     (case v of JNull \<Rightarrow> ''NoneType'' | JBool _ \<Rightarrow> ''bool'' | JInt _ \<Rightarrow> ''int''
      | JStr _ \<Rightarrow> ''str'' | JArr _ \<Rightarrow> ''list'' | JObj _ \<Rightarrow> ''dict'')"

text \<open>
  \<open>datetime.now()\<close> is a reading of the clock; \<open>strftime("%Y-%m-%d %H:%M:%S")\<close> writes the
  year on four digits and every other field on two, padded with zeros. The readings
  considered are the dates of the years 1000 to 9999: for an earlier year the digits \<open>%Y\<close>
  writes depend on the platform.
\<close>

record datetime =
  year :: nat
  month :: nat
  day :: nat
  hour :: nat
  minute :: nat
  second :: nat

definition valid_datetime :: "datetime \<Rightarrow> bool" where
  "valid_datetime d =
     (1000 \<le> year d \<and> year d \<le> 9999 \<and> 1 \<le> month d \<and> month d \<le> 12 \<and> 1 \<le> day d \<and> day d \<le> 31
      \<and> hour d < 24 \<and> minute d < 60 \<and> second d < 60)"

definition pad :: "nat \<Rightarrow> nat \<Rightarrow> string" where
  "pad w n = replicate (w - length (dec_of_nat n)) CHR ''0'' @ dec_of_nat n"

definition strftime :: "datetime \<Rightarrow> string" where
  "strftime d =
     pad 4 (year d) @ ''-'' @ pad 2 (month d) @ ''-'' @ pad 2 (day d) @ '' ''
     @ pad 2 (hour d) @ '':'' @ pad 2 (minute d) @ '':'' @ pad 2 (second d)"

text \<open>The shape \<open>YYYY-MM-DD HH:MM:SS\<close>: a \<open>d\<close> of the pattern stands for a digit.\<close>

definition timestamp_format :: "string \<Rightarrow> bool" where
  "timestamp_format s =
     list_all2 (\<lambda>p c. if p = CHR ''d'' then is_digit c else c = p) ''dddd-dd-dd dd:dd:dd'' s"

section \<open>The application state and its surroundings\<close>

record experiment_preferences =
  dataset_size :: string
  model_complexity :: string
  evaluation_metrics :: "string list"

record task_notes =
  focus_areas :: "string list"
  experiment_preferences :: experiment_preferences

text \<open>
  What a run shows and does, in order: the elements written to the page, the calls to the
  research library and the opening of the results file for writing. The input widgets (text
  fields, buttons, the form) are arguments of the functions below.
\<close>

datatype event =
    StError string
  | StSuccess string
  | StHeader string
  | StSubheader string
  | StWrite json
  | StJson json
  | StSpinner string
  | StDownloadButton string string string string
  | LabInit string string
  | LabConduct string task_notes
  | OpenWrite string

text \<open>
  The surroundings of a run: the clock, the research library and the disk. The library's
  constructor and its \<open>conduct_research\<close> either return or raise an \<open>Exception\<close>, given by
  its message \<open>str(e)\<close>.
\<close>

record env =
  now :: datetime
  lab_init :: "string \<Rightarrow> string \<Rightarrow> string option"
  lab_conduct :: "string \<Rightarrow> string \<Rightarrow> string \<Rightarrow> task_notes \<Rightarrow> string + json"
  disk_writable :: bool

text \<open>
  \<open>st.session_state\<close> (the store, the key, the view and the selection; an attribute that is
  not set is \<open>None\<close>), the content of \<open>research_results.json\<close> (\<open>None\<close> when there is no
  file) and the events so far.
\<close>

record app =
  research_results :: json
  api_key :: "string option"
  current_view :: "string option"
  selected_research :: "string option"
  results_file :: "string option"
  trace :: "event list"

definition emit :: "event \<Rightarrow> app \<Rightarrow> app" where
  "emit ev s = s\<lparr>trace := trace s @ [ev]\<rparr>"

text \<open>The truth value of \<open>st.session_state.api_key\<close>: \<open>None\<close> and the empty string are false.\<close>

definition key_present :: "app \<Rightarrow> bool" where
  "key_present s = (case api_key s of None \<Rightarrow> False | Some k \<Rightarrow> k \<noteq> [])"

definition key_of :: "app \<Rightarrow> string" where
  "key_of s = (case api_key s of None \<Rightarrow> [] | Some k \<Rightarrow> k)"

subsection \<open>Persistence\<close>

text \<open>
  \<open>save_results\<close> opens the file for writing and dumps the store with an indent of 4; when
  the file cannot be opened the exception is swallowed and the file stays as it was.
\<close>

definition save_results :: "env \<Rightarrow> app \<Rightarrow> app" where
  "save_results e s =
     (let s1 = emit (OpenWrite ''research_results.json'') s
      in if disk_writable e then s1\<lparr>results_file := Some (json_dumps 4 (research_results s))\<rparr>
         else s1)"

text \<open>
  The load at initialisation: the store starts empty, and is replaced by the parsed content
  of the file when the file exists and parses.
\<close>

definition load_results :: "string option \<Rightarrow> json" where
  "load_results file =
     (case file of
        None \<Rightarrow> JObj []
      | Some txt \<Rightarrow> (case json_loads txt of None \<Rightarrow> JObj [] | Some v \<Rightarrow> v))"

definition init_session :: "string option \<Rightarrow> app" where
  "init_session file =
     \<lparr>research_results = load_results file, api_key = None, current_view = None,
      selected_research = None, results_file = file, trace = []\<rparr>"

subsection \<open>Research dispatch\<close>

definition build_task_notes :: "string \<Rightarrow> task_notes" where
  "build_task_notes focus =
     \<lparr>focus_areas = map py_strip (split_on CHR '','' focus),
      experiment_preferences =
        \<lparr>dataset_size = ''small'', model_complexity = ''medium'',
         evaluation_metrics = [''accuracy'', ''perplexity'']\<rparr>\<rparr>"

definition error_str :: "py_error \<Rightarrow> string" where
  "error_str err =
     (case err of KeyError k \<Rightarrow> str_repr k | TypeError m \<Rightarrow> m | AttributeError m \<Rightarrow> m)"

definition conduct_research :: "env \<Rightarrow> string \<Rightarrow> string \<Rightarrow> app \<Rightarrow> (bool \<times> string) \<times> app" where
  "conduct_research e topic focus s =
     (if \<not> key_present s then
        ((False, ''API key required''),
         emit (StError ''Please enter your OpenAI API key in the sidebar first!'') s)
      else
        (let key = key_of s;
             s1 = emit (LabInit key ''gpt-4o'') s
         in case lab_init e key ''gpt-4o'' of
              Some msg \<Rightarrow> ((False, ''Error during research: '' @ msg), s1)
            | None \<Rightarrow>
               (let notes = build_task_notes focus;
                    s2 = emit (LabConduct topic notes) (emit (StSpinner ''Conducting research...'') s1)
                in case lab_conduct e key ''gpt-4o'' topic notes of
                     Inl msg \<Rightarrow> ((False, ''Error during research: '' @ msg), s2)
                   | Inr results \<Rightarrow>
                      (let timestamp = strftime (now e)
                       in case py_setitem (research_results s2) timestamp
                                 (JObj [(''topic'', JStr topic), (''focus_areas'', JStr focus),
                                        (''results'', results)]) of
                            Inl err \<Rightarrow> ((False, ''Error during research: '' @ error_str err), s2)
                          | Inr store \<Rightarrow>
                             ((True, ''Research completed successfully!''),
                              save_results e (s2\<lparr>research_results := store\<rparr>))))))"

subsection \<open>The form\<close>

text \<open>What runs when the form is rendered, from the two fields and the submit button.\<close>

definition research_form :: "env \<Rightarrow> string \<Rightarrow> string \<Rightarrow> bool \<Rightarrow> app \<Rightarrow> app" where
  "research_form e topic focus submitted s =
     (if submitted then
        (if \<not> key_present s then
           emit (StError ''Please enter your OpenAI API key in the sidebar first!'') s
         else if topic \<noteq> [] \<and> focus \<noteq> [] then
           (case conduct_research e topic focus s of
              ((success, message), s') \<Rightarrow>
                 if success then emit (StSuccess message) s' else emit (StError message) s')
         else s)
      else s)"

subsection \<open>The viewer and the export\<close>

definition and_then :: "py_error + 'a \<Rightarrow> ('a \<Rightarrow> py_error + 'b) \<Rightarrow> py_error + 'b" where
  "and_then r f = (case r of Inl err \<Rightarrow> Inl err | Inr x \<Rightarrow> f x)"

text \<open>The Markdown document of a record, built by three f-strings.\<close>

definition md_content :: "json \<Rightarrow> py_error + string" where
  "md_content research =
     and_then (py_getitem research ''topic'') (\<lambda>topic.
     and_then (py_getitem research ''focus_areas'') (\<lambda>focus.
     and_then (py_getitem research ''results'') (\<lambda>results.
       Inr (''# Research Results: '' @ py_str topic @ [CHR 0x0A, CHR 0x0A]
            @ ''## Focus Areas'' @ [CHR 0x0A] @ py_str focus @ [CHR 0x0A, CHR 0x0A]
            @ ''## Results'' @ [CHR 0x0A] @ ''```json'' @ [CHR 0x0A]
            @ json_dumps 2 results @ [CHR 0x0A] @ ''```''))))"

text \<open>The name of the download; \<open>lower\<close> is a method of strings only.\<close>

definition file_name :: "json \<Rightarrow> py_error + string" where
  "file_name research =
     and_then (py_getitem research ''topic'') (\<lambda>topic.
       case topic of
         JStr t \<Rightarrow> Inr (''research_'' @ replace_char CHR '' '' CHR ''_'' (py_lower t) @ ''.md'')
       | _ \<Rightarrow> Inl (AttributeError
                   (squote (py_type_name topic) @ '' object has no attribute '' @ squote ''lower'')))"

definition view_research :: "bool \<Rightarrow> app \<Rightarrow> py_error + app" where
  "view_research export_clicked s =
     (case selected_research s of
        None \<Rightarrow> Inr s
      | Some sel \<Rightarrow>
         and_then (py_getitem (research_results s) sel) (\<lambda>research.
         and_then (py_getitem research ''topic'') (\<lambda>topic.
         and_then (py_getitem research ''focus_areas'') (\<lambda>focus.
         and_then (py_getitem research ''results'') (\<lambda>results.
           (let s1 = emit (StHeader (''Research Results: '' @ py_str topic)) s;
                s2 = emit (StSubheader ''Focus Areas'') s1;
                s3 = emit (StWrite focus) s2;
                s4 = emit (StSubheader ''Results'') s3;
                s5 = emit (StJson results) s4
            in if export_clicked then
                 and_then (md_content research) (\<lambda>md.
                 and_then (file_name research) (\<lambda>name.
                   Inr (emit (StDownloadButton ''Download Markdown'' md name ''text/markdown'') s5)))
               else Inr s5))))))"

text \<open>The main content area: the view is \<open>new_research\<close> when it is not set.\<close>

definition main_content :: "env \<Rightarrow> string \<Rightarrow> string \<Rightarrow> bool \<Rightarrow> bool \<Rightarrow> app \<Rightarrow> py_error + app" where
  "main_content e topic focus submitted export_clicked s =
     (let s0 = (if current_view s = None then s\<lparr>current_view := Some ''new_research''\<rparr> else s)
      in if current_view s0 = Some ''new_research'' then
           Inr (research_form e topic focus submitted (emit (StHeader ''New Research'') s0))
         else if current_view s0 = Some ''view_research'' then view_research export_clicked s0
         else Inr s0)"

section \<open>Well-formed values and the documents the encoder writes\<close>

text \<open>A Python dictionary holds no key twice, at any depth of a value.\<close>

fun wf_json :: "json \<Rightarrow> bool" where
  "wf_json (JArr xs) = (\<forall>x \<in> set xs. wf_json x)"
| "wf_json (JObj kvs) = (distinct (map fst kvs) \<and> (\<forall>kv \<in> set kvs. wf_json (snd kv)))"
| "wf_json v = True"

text \<open>The number of nested calls the decoder makes on the encoding of a value, at most.\<close>

fun jfuel :: "json \<Rightarrow> nat" where
  "jfuel (JArr xs) = Suc (sum_list (map (\<lambda>x. Suc (jfuel x)) xs))"
| "jfuel (JObj kvs) = Suc (sum_list (map (\<lambda>kv. Suc (jfuel (snd kv))) kvs))"
| "jfuel v = 1"

text \<open>What stands behind a value in the encoder's output: nothing, a comma or a line feed.\<close>

definition delim :: "string \<Rightarrow> bool" where
  "delim rest = (case rest of [] \<Rightarrow> True | c # _ \<Rightarrow> c = CHR '','' \<or> c = CHR 0x0A)"

section \<open>Example inputs\<close>

text \<open>A clock reading, a library that answers, one that raises, and two sessions.\<close>

definition sample_clock :: datetime where
  "sample_clock = \<lparr>year = 2024, month = 3, day = 9, hour = 7, minute = 5, second = 0\<rparr>"

definition sample_results :: json where
  "sample_results = JObj [(''accuracy'', JInt 1)]"

definition sample_env :: env where
  "sample_env =
     \<lparr>now = sample_clock, lab_init = (\<lambda>k m. None),
      lab_conduct = (\<lambda>k m t n. Inr sample_results), disk_writable = True\<rparr>"

definition failing_env :: env where
  "failing_env = sample_env\<lparr>lab_conduct := (\<lambda>k m t n. Inl ''rate limit exceeded'')\<rparr>"

definition sample_record :: json where
  "sample_record =
     JObj [(''topic'', JStr ''Graph Neural Networks''),
           (''focus_areas'', JStr ''scalability, robustness''),
           (''results'', sample_results)]"

definition sample_store :: json where
  "sample_store = JObj [(''2024-03-09 07:05:00'', sample_record)]"

definition sample_app :: app where
  "sample_app =
     \<lparr>research_results = sample_store, api_key = Some ''sk-test'',
      current_view = Some ''view_research'', selected_research = Some ''2024-03-09 07:05:00'',
      results_file = None, trace = []\<rparr>"

definition fresh_app :: app where
  "fresh_app = init_session None"


section \<open>Properties\<close>

subsection \<open>Decimal numerals\<close>

lemma is_digit_digit_char: "is_digit (digit_char n)"
  by (simp add: is_digit_def digit_char_def)

lemma digit_val_digit_char: "digit_val (digit_char n) = n mod 10"
  by (simp add: digit_val_def digit_char_def)

lemma dec_of_nat_nonempty: "dec_of_nat n \<noteq> []"
  by (subst dec_of_nat.simps) simp

lemma dec_of_nat_digits: "list_all is_digit (dec_of_nat n)"
proof (induction n rule: dec_of_nat.induct)
  case (1 n)
  show ?case
    by (subst dec_of_nat.simps) (use 1 in \<open>simp add: is_digit_digit_char\<close>)
qed

lemma nat_of_digits_snoc: "nat_of_digits (ds @ [c]) = 10 * nat_of_digits ds + digit_val c"
  by (simp add: nat_of_digits_def)

lemma nat_of_digits_dec: "nat_of_digits (dec_of_nat n) = n"
proof (induction n rule: dec_of_nat.induct)
  case (1 n)
  show ?case
  proof (cases "n < 10")
    case True
    then show ?thesis
      by (subst dec_of_nat.simps) (simp add: nat_of_digits_def digit_val_digit_char)
  next
    case False
    then show ?thesis
      by (subst dec_of_nat.simps) (use 1 in \<open>simp add: nat_of_digits_snoc digit_val_digit_char\<close>)
  qed
qed

lemma digit_char_zero: "digit_char n = CHR ''0'' \<longleftrightarrow> n mod 10 = 0"
proof -
  have "digit_char n = CHR ''0'' \<longleftrightarrow> (of_char (digit_char n) :: nat) = of_char (CHR ''0'')"
    by (metis of_char_eq_iff)
  also have "\<dots> \<longleftrightarrow> n mod 10 = 0"
    by (simp add: digit_char_def)
  finally show ?thesis .
qed

lemma hd_dec_of_nat: "hd (dec_of_nat n) = CHR ''0'' \<longleftrightarrow> n = 0"
proof (induction n rule: dec_of_nat.induct)
  case (1 n)
  show ?case
  proof (cases "n < 10")
    case True
    then show ?thesis
      by (subst dec_of_nat.simps) (simp add: digit_char_zero)
  next
    case False
    then have "n div 10 \<noteq> 0" by simp
    with False 1 show ?thesis
      by (subst dec_of_nat.simps) (simp add: dec_of_nat_nonempty)
  qed
qed

lemma length_dec_of_nat: "n < 10 ^ k \<Longrightarrow> 0 < k \<Longrightarrow> length (dec_of_nat n) \<le> k"
proof (induction n arbitrary: k rule: dec_of_nat.induct)
  case (1 n)
  show ?case
  proof (cases "n < 10")
    case True
    then show ?thesis using 1(3)
      by (subst dec_of_nat.simps) simp
  next
    case False
    then obtain k' where k: "k = Suc k'" "0 < k'"
      using 1(2,3) by (cases k; cases "k - 1") auto
    have "n div 10 < 10 ^ k'" using 1(2) k by (simp add: less_mult_imp_div_less mult.commute)
    with 1(1)[OF False this k(2)] False k show ?thesis
      by (subst dec_of_nat.simps) simp
  qed
qed

subsection \<open>Reading back what the encoder wrote\<close>

lemma char_of_eq_iff: "n < 256 \<Longrightarrow> char_of (n::nat) = c \<longleftrightarrow> n = of_char c"
proof -
  assume n: "n < 256"
  have "char_of n = c \<longleftrightarrow> (of_char (char_of n) :: nat) = of_char c"
    by (metis of_char_eq_iff)
  then show ?thesis using n by simp
qed



lemma delim_not_float: "delim rest \<Longrightarrow> \<not> float_follows rest"
  by (auto simp: delim_def float_follows_def split: list.splits)

lemma delim_takeWhile: "delim rest \<Longrightarrow> list_all is_digit ds \<Longrightarrow> takeWhile is_digit (ds @ rest) = ds"
  by (cases rest) (auto simp: delim_def is_digit_def list_all_iff takeWhile_append)

lemma scan_number_nat:
  assumes "delim rest"
  shows "scan_number (dec_of_nat n @ rest) = Some (JInt (int n), rest)"
proof -
  obtain d r where dr: "dec_of_nat n = d # r"
    using dec_of_nat_nonempty by (cases "dec_of_nat n") auto
  have dig: "list_all is_digit (d # r)" using dec_of_nat_digits[of n] dr by simp
  then have d: "is_digit d" by simp
  have nm: "d \<noteq> CHR ''-''" using d by (auto simp: is_digit_def)
  show ?thesis
  proof (cases "d = CHR ''0''")
    case True
    then have "n = 0" using hd_dec_of_nat[of n] dr by simp
    then have "dec_of_nat n = ''0''" by (subst dec_of_nat.simps) (simp add: digit_char_def char_of_eq_iff)
    then show ?thesis using assms delim_not_float[OF assms]
      by (simp add: scan_number_def is_digit_def nat_of_digits_def digit_val_def \<open>n = 0\<close>)
  next
    case False
    have tw: "takeWhile is_digit (d # r @ rest) = d # r"
      using delim_takeWhile[OF assms dig] by simp
    have "nat_of_digits (d # r) = n" using nat_of_digits_dec[of n] dr by simp
    then show ?thesis using False d nm delim_not_float[OF assms] tw dr
      by (simp add: scan_number_def Let_def)
  qed
qed

lemma scan_number_int_repr:
  assumes "delim rest"
  shows "scan_number (int_repr i @ rest) = Some (JInt i, rest)"
proof (cases "i < 0")
  case False
  then show ?thesis using scan_number_nat[OF assms, of "nat i"]
    by (simp add: int_repr_def)
next
  case True
  obtain d r where dr: "dec_of_nat (nat (- i)) = d # r"
    using dec_of_nat_nonempty by (cases "dec_of_nat (nat (- i))") auto
  have dig: "list_all is_digit (d # r)" using dec_of_nat_digits[of "nat (- i)"] dr by simp
  then have d: "is_digit d" by simp
  have nz: "d \<noteq> CHR ''0''" using hd_dec_of_nat[of "nat (- i)"] dr True by auto
  have tw: "takeWhile is_digit (d # r @ rest) = d # r"
    using delim_takeWhile[OF assms dig] by simp
  have "nat_of_digits (d # r) = nat (- i)" using nat_of_digits_dec[of "nat (- i)"] dr by simp
  then show ?thesis using True d nz delim_not_float[OF assms] tw dr
    by (simp add: scan_number_def Let_def int_repr_def)
qed

lemma hex_val_hex_digit: "n < 16 \<Longrightarrow> hex_val (hex_digit n) = Some n"
  by (auto simp: hex_val_def hex_digit_def Let_def)

lemma hex_val_zero: "hex_val CHR ''0'' = Some 0"
  by (simp add: hex_val_def)

lemma of_char_lt_256: "(of_char (c::char) :: nat) < 256"
  by (metis of_char_mod_256 mod_less_divisor zero_less_numeral)

lemma scanstring_esc_char:
  assumes "scanstring X = Some (s, rest)"
  shows "scanstring (esc_char c @ X) = Some (c # s, rest)"
proof -
  let ?n = "of_char c :: nat"
  have n: "?n < 256" by (rule of_char_lt_256)
  then have d: "?n div 16 < 16" by (simp add: less_mult_imp_div_less)
  have m: "?n mod 16 < 16" by simp
  have cb: "char_of (?n div 16 * 16 + ?n mod 16) = c" by simp
  consider (c1) "c = CHR 0x22" | (c2) "c = CHR 0x5C" | (c3) "c = CHR 0x0A" | (c4) "c = CHR 0x0D"
    | (c5) "c = CHR 0x09" | (c6) "c = CHR 0x0C" | (c7) "c = CHR 0x08"
    | (lit) "c \<noteq> CHR 0x22" "c \<noteq> CHR 0x5C" "32 \<le> ?n" "?n \<le> 126"
    | (u) "c \<noteq> CHR 0x22" "c \<noteq> CHR 0x5C" "c \<noteq> CHR 0x0A" "c \<noteq> CHR 0x0D" "c \<noteq> CHR 0x09"
          "c \<noteq> CHR 0x0C" "c \<noteq> CHR 0x08" "\<not> (32 \<le> ?n \<and> ?n \<le> 126)"
    by blast
  then show ?thesis
  proof cases
    case lit
    then have "esc_char c = [c]" by (auto simp: esc_char_def)
    then show ?thesis using lit assms by simp
  next
    case u
    then have e: "esc_char c = [CHR 0x5C, CHR ''u'', CHR ''0'', CHR ''0'', hex_digit (?n div 16), hex_digit (?n mod 16)]"
      by (simp add: esc_char_def)
    show ?thesis
      unfolding e using assms n cb
      by (simp add: hex_val_hex_digit[OF d] hex_val_hex_digit[OF m] hex_val_zero)
  qed (use assms in \<open>simp_all add: esc_char_def unescape_def\<close>)
qed

lemma scanstring_encoded:
  "scanstring (concat (map esc_char s) @ CHR 0x22 # rest) = Some (s, rest)"
  by (induction s) (simp_all add: scanstring_esc_char)

lemma skip_ws_nonws: "\<not> is_ws c \<Longrightarrow> skip_ws (c # r) = c # r"
  by (simp add: skip_ws_def)

lemma skip_ws_spaces: "skip_ws (replicate k CHR '' '' @ x) = skip_ws x"
  by (induction k) (simp_all add: skip_ws_def is_ws_def)

lemma skip_ws_newline_indent: "skip_ws (newline_indent ind lvl @ x) = skip_ws x"
proof -
  have "skip_ws (newline_indent ind lvl @ x) = skip_ws (replicate (ind * lvl) CHR '' '' @ x)"
    by (simp add: newline_indent_def skip_ws_def is_ws_def)
  then show ?thesis by (simp add: skip_ws_spaces)
qed

lemma delim_newline_indent: "delim (newline_indent ind lvl @ x)"
  by (simp add: newline_indent_def delim_def)

lemma delim_comma: "delim (CHR '','' # x)"
  by (simp add: delim_def)

lemma int_repr_first: "\<exists>c r. int_repr i = c # r \<and> (c = CHR ''-'' \<or> is_digit c)"
proof -
  obtain d r where dr: "dec_of_nat (nat \<bar>i\<bar>) = d # r"
    using dec_of_nat_nonempty by (cases "dec_of_nat (nat \<bar>i\<bar>)") auto
  have "is_digit d" using dec_of_nat_digits[of "nat \<bar>i\<bar>"] dr by simp
  then show ?thesis using dr by (cases "i < 0") (auto simp: int_repr_def abs_if)
qed

lemma number_start:
  assumes "c = CHR ''-'' \<or> is_digit c"
  shows "c \<noteq> CHR 0x22 \<and> c \<noteq> CHR ''{'' \<and> c \<noteq> CHR ''['' \<and> c \<noteq> CHR ''n'' \<and> c \<noteq> CHR ''t''
         \<and> c \<noteq> CHR ''f'' \<and> \<not> is_ws c \<and> c \<noteq> CHR '']'' \<and> c \<noteq> CHR ''}''"
  using assms
proof
  assume "c = CHR ''-''"
  then show ?thesis by (simp add: is_ws_def)
next
  assume d: "is_digit c"
  have "\<And>x. \<not> is_digit x \<Longrightarrow> c \<noteq> x" using d by blast
  then show ?thesis by (simp add: is_ws_def is_digit_def)
qed

lemma scan_once_number:
  assumes "c = CHR ''-'' \<or> is_digit c"
  shows "scan_once (Suc n) (c # r) = scan_number (c # r)"
  using number_start[OF assms] by simp

lemma scan_once_int:
  assumes "delim rest"
  shows "scan_once (Suc n) (int_repr i @ rest) = Some (JInt i, rest)"
proof -
  obtain c r where cr: "int_repr i = c # r" "c = CHR ''-'' \<or> is_digit c"
    using int_repr_first by blast
  have "scan_once (Suc n) (c # r @ rest) = scan_number (c # r @ rest)"
    by (rule scan_once_number[OF cr(2)])
  then show ?thesis using scan_number_int_repr[OF assms, of i] cr(1) by simp
qed

lemma scan_once_str: "scan_once (Suc n) (encode_string s @ rest) = Some (JStr s, rest)"
  by (simp add: encode_string_def scanstring_encoded)

lemma scan_once_null: "scan_once (Suc n) (''null'' @ rest) = Some (JNull, rest)"
  by simp

lemma scan_once_bool: "scan_once (Suc n) ((if b then ''true'' else ''false'') @ rest) = Some (JBool b, rest)"
  by simp

lemma iterencode_first:
  "\<exists>c r. iterencode ind lvl v = c # r \<and> \<not> is_ws c \<and> c \<noteq> CHR '']'' \<and> c \<noteq> CHR ''}''"
proof (cases v)
  case (JInt i)
  obtain c r where "int_repr i = c # r" "c = CHR ''-'' \<or> is_digit c"
    using int_repr_first by blast
  then show ?thesis using JInt number_start[of c] by simp
next
  case JNull
  then show ?thesis by (simp add: is_ws_def)
next
  case (JBool b)
  then show ?thesis by (simp add: is_ws_def)
next
  case (JStr s)
  then show ?thesis by (simp add: is_ws_def encode_string_def)
next
  case (JArr xs)
  then show ?thesis by (simp add: is_ws_def)
next
  case (JObj kvs)
  then show ?thesis by (simp add: is_ws_def)
qed

lemma skip_ws_iterencode: "skip_ws (iterencode ind lvl v @ x) = iterencode ind lvl v @ x"
proof -
  obtain c r where "iterencode ind lvl v = c # r" "\<not> is_ws c"
    using iterencode_first by blast
  then show ?thesis by (simp add: skip_ws_nonws)
qed

lemma skip_ws_encode_string: "skip_ws (encode_string k @ x) = encode_string k @ x"
  by (simp add: encode_string_def skip_ws_nonws is_ws_def)

lemma join_Cons: "join sep (y # ys) @ x = y @ (if ys = [] then x else sep @ join sep ys @ x)"
  by (cases ys) simp_all

lemma parse_array_items:
  assumes IH: "\<And>x n lvl rest. x \<in> set xs \<Longrightarrow> jfuel x \<le> n \<Longrightarrow> delim rest
                 \<Longrightarrow> scan_once n (iterencode ind lvl x @ rest) = Some (x, rest)"
    and "xs \<noteq> []"
    and "sum_list (map (\<lambda>x. Suc (jfuel x)) xs) \<le> n"
  shows "parse_array n (join (CHR '','' # newline_indent ind l1) (map (iterencode ind l1) xs)
                         @ newline_indent ind l0 @ CHR '']'' # rest) = Some (xs, rest)"
  using assms
proof (induction xs arbitrary: n)
  case Nil
  then show ?case by simp
next
  case (Cons x xs)
  from Cons.prems(3) obtain m where n: "n = Suc m" and m: "jfuel x \<le> m"
    "sum_list (map (\<lambda>x. Suc (jfuel x)) xs) \<le> m"
    by (cases n) auto
  show ?case
  proof (cases xs)
    case Nil
    have "scan_once m (iterencode ind l1 x @ newline_indent ind l0 @ CHR '']'' # rest)
            = Some (x, newline_indent ind l0 @ CHR '']'' # rest)"
      by (rule Cons.prems(1)) (simp_all add: m delim_newline_indent)
    then show ?thesis using Nil n
      by (simp add: skip_ws_newline_indent skip_ws_nonws is_ws_def)
  next
    case (Cons y ys)
    let ?tail = "join (CHR '','' # newline_indent ind l1) (map (iterencode ind l1) xs)
                   @ newline_indent ind l0 @ CHR '']'' # rest"
    have s1: "scan_once m (iterencode ind l1 x @ CHR '','' # newline_indent ind l1 @ ?tail)
            = Some (x, CHR '','' # newline_indent ind l1 @ ?tail)"
      by (rule Cons.prems(1)) (simp_all add: m delim_comma)
    have s2: "skip_ws ?tail = ?tail"
      unfolding Cons list.map join_Cons by (rule skip_ws_iterencode)
    have s3: "parse_array m ?tail = Some (xs, rest)"
      by (rule Cons.IH) (use Cons.prems(1) Cons m in simp_all)
    show ?thesis using Cons n s1 s2 s3
      by (simp add: skip_ws_newline_indent skip_ws_nonws is_ws_def)
  qed
qed

lemma parse_object_items:
  assumes IH: "\<And>kv n lvl rest. kv \<in> set kvs \<Longrightarrow> jfuel (snd kv) \<le> n \<Longrightarrow> delim rest
                 \<Longrightarrow> scan_once n (iterencode ind lvl (snd kv) @ rest) = Some (snd kv, rest)"
    and "kvs \<noteq> []"
    and "sum_list (map (\<lambda>kv. Suc (jfuel (snd kv))) kvs) \<le> n"
  shows "parse_object n
           (join (CHR '','' # newline_indent ind l1)
              (map (\<lambda>kv. encode_string (fst kv) @ '': '' @ iterencode ind l1 (snd kv)) kvs)
            @ newline_indent ind l0 @ CHR ''}'' # rest) = Some (kvs, rest)"
  using assms
proof (induction kvs arbitrary: n)
  case Nil
  then show ?case by simp
next
  case (Cons kv kvs)
  obtain k v where kv: "kv = (k, v)" by (cases kv)
  from Cons.prems(3) obtain m where n: "n = Suc m" and m: "jfuel v \<le> m"
    "sum_list (map (\<lambda>kv. Suc (jfuel (snd kv))) kvs) \<le> m"
    by (cases n) (auto simp: kv)
  have key: "\<And>x. scanstring (concat (map esc_char k) @ CHR 0x22 # x) = Some (k, x)"
    by (rule scanstring_encoded)
  have sp: "\<And>x. skip_ws (CHR '' '' # iterencode ind l1 v @ x) = iterencode ind l1 v @ x"
    using skip_ws_iterencode[of ind l1 v] by (simp add: skip_ws_def is_ws_def)
  show ?case
  proof (cases kvs)
    case Nil
    have "scan_once m (iterencode ind l1 v @ newline_indent ind l0 @ CHR ''}'' # rest)
            = Some (v, newline_indent ind l0 @ CHR ''}'' # rest)"
      using Cons.prems(1)[of kv m "newline_indent ind l0 @ CHR ''}'' # rest" l1]
      by (simp add: kv m delim_newline_indent)
    then show ?thesis using Nil n kv key sp
      by (simp add: encode_string_def skip_ws_newline_indent skip_ws_nonws is_ws_def)
  next
    case (Cons kv' kvs')
    let ?tail = "join (CHR '','' # newline_indent ind l1)
                   (map (\<lambda>kv. encode_string (fst kv) @ '': '' @ iterencode ind l1 (snd kv)) kvs)
                 @ newline_indent ind l0 @ CHR ''}'' # rest"
    have s1: "scan_once m (iterencode ind l1 v @ CHR '','' # newline_indent ind l1 @ ?tail)
            = Some (v, CHR '','' # newline_indent ind l1 @ ?tail)"
      using Cons.prems(1)[of kv m "CHR '','' # newline_indent ind l1 @ ?tail" l1]
      by (simp add: kv m delim_comma)
    have s2: "skip_ws ?tail = ?tail"
      unfolding Cons list.map join_Cons append_assoc by (rule skip_ws_encode_string)
    have s3: "parse_object m ?tail = Some (kvs, rest)"
      by (rule Cons.IH) (use Cons.prems(1) Cons m in simp_all)
    show ?thesis using Cons n kv key s1 s2 s3 sp
      by (simp add: encode_string_def skip_ws_newline_indent skip_ws_nonws is_ws_def)
  qed
qed

lemma dict_set_fresh: "k \<notin> fst ` set d \<Longrightarrow> dict_set d k v = d @ [(k, v)]"
  by (induction d) auto

lemma foldl_dict_set_distinct:
  "distinct (map fst (d @ kvs)) \<Longrightarrow> foldl (\<lambda>d kv. dict_set d (fst kv) (snd kv)) d kvs = d @ kvs"
proof (induction kvs arbitrary: d)
  case Nil
  then show ?case by simp
next
  case (Cons kv kvs)
  have fresh: "fst kv \<notin> fst ` set d" using Cons.prems by auto
  have "distinct (map fst ((d @ [kv]) @ kvs))" using Cons.prems by simp
  from Cons.IH[OF this] show ?case
    by (simp add: dict_set_fresh[OF fresh])
qed

lemma dict_of_pairs_distinct: "distinct (map fst kvs) \<Longrightarrow> dict_of_pairs kvs = kvs"
  using foldl_dict_set_distinct[of "[]" kvs] by (simp add: dict_of_pairs_def)

lemma scan_once_iterencode:
  "wf_json v \<Longrightarrow> jfuel v \<le> n \<Longrightarrow> delim rest
     \<Longrightarrow> scan_once n (iterencode ind lvl v @ rest) = Some (v, rest)"
proof (induction v arbitrary: n lvl rest)
  case JNull
  then obtain m where "n = Suc m" by (cases n) auto
  then show ?case by simp
next
  case (JBool b)
  then obtain m where "n = Suc m" by (cases n) auto
  then show ?case by simp
next
  case (JInt i)
  then obtain m where "n = Suc m" by (cases n) auto
  then show ?case using scan_once_int[OF JInt(3)] by simp
next
  case (JStr s)
  then obtain m where "n = Suc m" by (cases n) auto
  then show ?case using scan_once_str by simp
next
  case (JArr xs)
  from JArr.prems(2) obtain m where n: "n = Suc m"
    and m: "sum_list (map (\<lambda>x. Suc (jfuel x)) xs) \<le> m"
    by (cases n) auto
  show ?case
  proof (cases "xs = []")
    case True
    then show ?thesis using n by (simp add: skip_ws_nonws is_ws_def)
  next
    case False
    let ?body = "join (CHR '','' # newline_indent ind (Suc lvl)) (map (iterencode ind (Suc lvl)) xs)
                   @ newline_indent ind lvl @ CHR '']'' # rest"
    have IH: "\<And>x n lvl rest. x \<in> set xs \<Longrightarrow> jfuel x \<le> n \<Longrightarrow> delim rest
                 \<Longrightarrow> scan_once n (iterencode ind lvl x @ rest) = Some (x, rest)"
      using JArr.IH JArr.prems(1) by simp
    have p: "parse_array m ?body = Some (xs, rest)"
      by (rule parse_array_items[OF IH False m])
    obtain y ys where xs: "xs = y # ys" using False by (cases xs) auto
    obtain c r where cr: "iterencode ind (Suc lvl) y = c # r" "\<not> is_ws c" "c \<noteq> CHR '']''"
      using iterencode_first by blast
    have b: "?body = c # r @ (if ys = [] then newline_indent ind lvl @ CHR '']'' # rest
               else (CHR '','' # newline_indent ind (Suc lvl))
                    @ join (CHR '','' # newline_indent ind (Suc lvl)) (map (iterencode ind (Suc lvl)) ys)
                    @ newline_indent ind lvl @ CHR '']'' # rest)"
      unfolding xs list.map join_Cons cr(1) by simp
    have sk: "skip_ws ?body = ?body" and tk: "take 1 ?body \<noteq> '']''"
      unfolding b using cr(2,3) by (simp_all add: skip_ws_nonws)
    have "scan_once (Suc m) (CHR ''['' # newline_indent ind (Suc lvl) @ ?body) = Some (JArr xs, rest)"
      using p sk tk by (simp add: skip_ws_newline_indent)
    then show ?thesis using False n by simp
  qed
next
  case (JObj kvs)
  from JObj.prems(2) obtain m where n: "n = Suc m"
    and m: "sum_list (map (\<lambda>kv. Suc (jfuel (snd kv))) kvs) \<le> m"
    by (cases n) auto
  show ?case
  proof (cases "kvs = []")
    case True
    then show ?thesis using n by (simp add: skip_ws_nonws is_ws_def)
  next
    case False
    let ?body = "join (CHR '','' # newline_indent ind (Suc lvl))
                   (map (\<lambda>kv. encode_string (fst kv) @ '': '' @ iterencode ind (Suc lvl) (snd kv)) kvs)
                 @ newline_indent ind lvl @ CHR ''}'' # rest"
    have IH: "\<And>kv n lvl rest. kv \<in> set kvs \<Longrightarrow> jfuel (snd kv) \<le> n \<Longrightarrow> delim rest
                 \<Longrightarrow> scan_once n (iterencode ind lvl (snd kv) @ rest) = Some (snd kv, rest)"
    proof -
      fix kv :: "string \<times> json" and n lvl rest
      assume a: "kv \<in> set kvs" "jfuel (snd kv) \<le> n" "delim rest"
      have w: "wf_json (snd kv)" using JObj.prems(1) a(1) by simp
      have s: "snd kv \<in> Basic_BNFs.snds kv" by (cases kv) simp
      show "scan_once n (iterencode ind lvl (snd kv) @ rest) = Some (snd kv, rest)"
        by (rule JObj.IH[OF a(1) s w a(2) a(3)])
    qed
    have p: "parse_object m ?body = Some (kvs, rest)"
      by (rule parse_object_items[OF IH False m])
    obtain y ys where kvs: "kvs = y # ys" using False by (cases kvs) auto
    have b: "?body = CHR 0x22 # (concat (map esc_char (fst y)) @ [CHR 0x22]) @ '': '' @ iterencode ind (Suc lvl) (snd y)
               @ (if ys = [] then newline_indent ind lvl @ CHR ''}'' # rest
               else (CHR '','' # newline_indent ind (Suc lvl))
                    @ join (CHR '','' # newline_indent ind (Suc lvl))
                        (map (\<lambda>kv. encode_string (fst kv) @ '': '' @ iterencode ind (Suc lvl) (snd kv)) ys)
                    @ newline_indent ind lvl @ CHR ''}'' # rest)"
      unfolding kvs list.map join_Cons encode_string_def by simp
    have sk: "skip_ws ?body = ?body" and tk: "take 1 ?body \<noteq> ''}''"
      unfolding b by (simp_all add: skip_ws_nonws is_ws_def)
    have d: "dict_of_pairs kvs = kvs"
      using JObj.prems(1) by (simp add: dict_of_pairs_distinct)
    have "scan_once (Suc m) (CHR ''{'' # newline_indent ind (Suc lvl) @ ?body) = Some (JObj kvs, rest)"
      using p sk tk d by (simp add: skip_ws_newline_indent)
    then show ?thesis using False n by simp
  qed
qed

lemma length_join:
  "ys \<noteq> [] \<Longrightarrow> length (join sep ys) + length sep = sum_list (map (\<lambda>y. length y + length sep) ys)"
  by (induction sep ys rule: join.induct) simp_all

lemma length_newline_indent: "0 < length (newline_indent ind lvl)"
  by (simp add: newline_indent_def)

lemma int_repr_nonempty: "0 < length (int_repr i)"
  using int_repr_first[of i] by auto

lemma jfuel_le_length: "jfuel v \<le> length (iterencode ind lvl v)"
proof (induction v arbitrary: lvl)
  case (JInt i)
  then show ?case using int_repr_nonempty[of i] by (simp add: Suc_le_eq)
next
  case (JStr s)
  then show ?case by (simp add: encode_string_def)
next
  case (JArr xs)
  show ?case
  proof (cases "xs = []")
    case True
    then show ?thesis by simp
  next
    case False
    let ?sep = "CHR '','' # newline_indent ind (Suc lvl)"
    let ?ys = "map (iterencode ind (Suc lvl)) xs"
    have "sum_list (map (\<lambda>x. Suc (jfuel x)) xs)
            \<le> sum_list (map (\<lambda>x. length (iterencode ind (Suc lvl) x) + length ?sep) xs)"
      by (rule sum_list_mono) (use JArr.IH[of _ "Suc lvl"] in \<open>simp add: le_SucI trans_le_add1\<close>)
    also have "\<dots> = sum_list (map (\<lambda>y. length y + length ?sep) ?ys)"
      by (simp add: comp_def)
    also have "\<dots> = length (join ?sep ?ys) + length ?sep"
      by (rule length_join[symmetric]) (use False in simp)
    finally show ?thesis using False length_newline_indent[of ind lvl] by simp
  qed
next
  case (JObj kvs)
  show ?case
  proof (cases "kvs = []")
    case True
    then show ?thesis by simp
  next
    case False
    let ?sep = "CHR '','' # newline_indent ind (Suc lvl)"
    let ?f = "\<lambda>kv. encode_string (fst kv) @ '': '' @ iterencode ind (Suc lvl) (snd kv)"
    let ?ys = "map ?f kvs"
    have le: "\<And>kv. kv \<in> set kvs \<Longrightarrow> jfuel (snd kv) \<le> length (iterencode ind (Suc lvl) (snd kv))"
    proof -
      fix kv :: "string \<times> json"
      assume a: "kv \<in> set kvs"
      have s: "snd kv \<in> Basic_BNFs.snds kv" by (cases kv) simp
      show "jfuel (snd kv) \<le> length (iterencode ind (Suc lvl) (snd kv))"
        by (rule JObj.IH[OF a s])
    qed
    have "sum_list (map (\<lambda>kv. Suc (jfuel (snd kv))) kvs)
            \<le> sum_list (map (\<lambda>kv. length (?f kv) + length ?sep) kvs)"
      by (rule sum_list_mono) (use le in \<open>simp add: le_SucI trans_le_add1 trans_le_add2\<close>)
    also have "\<dots> = sum_list (map (\<lambda>y. length y + length ?sep) ?ys)"
      by (simp add: comp_def)
    also have "\<dots> = length (join ?sep ?ys) + length ?sep"
      by (rule length_join[symmetric]) (use False in simp)
    finally show ?thesis using False length_newline_indent[of ind lvl] by simp
  qed
qed simp_all

lemma json_loads_dumps: "wf_json v \<Longrightarrow> json_loads (json_dumps ind v) = Some v"
proof -
  assume w: "wf_json v"
  let ?s = "iterencode ind 0 v"
  have f: "jfuel v \<le> 2 * length ?s + 2"
    using jfuel_le_length[of v ind 0] by simp
  have "scan_once (2 * length ?s + 2) (?s @ []) = Some (v, [])"
    by (rule scan_once_iterencode[OF w f]) (simp add: delim_def)
  moreover have "skip_ws ?s = ?s" using skip_ws_iterencode[of ind 0 v "[]"] by simp
  ultimately show ?thesis
    by (simp add: json_loads_def json_dumps_def skip_ws_def[of "[]"])
qed

subsection \<open>Splitting and stripping\<close>

lemma split_on_nonempty: "split_on sep s \<noteq> []"
  by (induction s) (auto split: list.splits)

lemma join_split_on: "join [sep] (split_on sep s) = s"
proof (induction s)
  case Nil
  then show ?case by simp
next
  case (Cons c cs)
  obtain p ps where pp: "split_on sep cs = p # ps"
    using split_on_nonempty[of sep cs] by (cases "split_on sep cs") auto
  have j: "join [sep] ((c # p) # ps) = c # join [sep] (p # ps)"
    by (cases ps) simp_all
  show ?case using Cons pp j by simp
qed

lemma split_on_no_sep: "p \<in> set (split_on sep s) \<Longrightarrow> sep \<notin> set p"
  by (induction s arbitrary: p) (auto split: list.splits if_splits)

lemma length_split_on: "length (split_on sep s) = Suc (count_list s sep)"
  by (induction s) (auto split: list.splits simp: split_on_nonempty)

lemma py_strip_ends:
  "py_strip p = [] \<or> (\<not> py_isspace (hd (py_strip p)) \<and> \<not> py_isspace (last (py_strip p)))"
proof (cases "py_strip p = []")
  case True
  then show ?thesis by simp
next
  case False
  let ?a = "dropWhile py_isspace p"
  let ?b = "dropWhile py_isspace (rev ?a)"
  have b: "?b \<noteq> []" using False by (simp add: py_strip_def)
  then have l: "\<not> py_isspace (hd ?b)" by (rule hd_dropWhile)
  have a: "?a \<noteq> []"
  proof
    assume e: "?a = []"
    have "?b = []" unfolding e by simp
    with b show False by contradiction
  qed
  then have h: "\<not> py_isspace (hd ?a)" by (rule hd_dropWhile)
  have "\<exists>ws. rev ?a = ws @ ?b" by (metis takeWhile_dropWhile_id)
  then obtain ws where "rev ?a = ws @ ?b" ..
  then have "?a = rev ?b @ rev ws" by (metis rev_append rev_rev_ident)
  then have "hd ?a = hd (rev ?b)" using b by (metis hd_append2 rev_is_Nil_conv)
  then have "\<not> py_isspace (hd (rev ?b))" using h by simp
  moreover have "last (rev ?b) = hd ?b" using b by (simp add: last_rev)
  ultimately show ?thesis using l by (simp add: py_strip_def)
qed

lemma py_strip_inside:
  "\<exists>a b. p = a @ py_strip p @ b \<and> list_all py_isspace a \<and> list_all py_isspace b"
proof -
  let ?a = "dropWhile py_isspace p"
  let ?b = "dropWhile py_isspace (rev ?a)"
  have 1: "p = takeWhile py_isspace p @ ?a" by simp
  have "rev ?a = takeWhile py_isspace (rev ?a) @ ?b" by simp
  then have 2: "?a = rev ?b @ rev (takeWhile py_isspace (rev ?a))"
    by (metis rev_append rev_rev_ident)
  have "p = takeWhile py_isspace p @ py_strip p @ rev (takeWhile py_isspace (rev ?a))"
    using 1 2 by (metis py_strip_def)
  moreover have "list_all py_isspace (takeWhile py_isspace p)"
    by (simp add: list_all_iff) (meson set_takeWhileD)
  moreover have "list_all py_isspace (rev (takeWhile py_isspace (rev ?a)))"
    by (simp add: list_all_iff) (meson set_takeWhileD)
  ultimately show ?thesis by blast
qed

subsection \<open>The viewer and the export\<close>

lemma view_research_record:
  assumes "selected_research s = Some k"
    and "py_getitem (research_results s) k = Inr (JObj r)"
    and "map_of r ''topic'' = Some topic"
    and "map_of r ''focus_areas'' = Some focus"
    and "map_of r ''results'' = Some results"
  shows "view_research False s
           = Inr (s\<lparr>trace := trace s @ [StHeader (''Research Results: '' @ py_str topic),
                                        StSubheader ''Focus Areas'', StWrite focus,
                                        StSubheader ''Results'', StJson results]\<rparr>)"
  using assms by (simp add: view_research_def and_then_def emit_def)

lemma view_research_dangling_key:
  assumes "selected_research s = Some k"
    and "research_results s = JObj kvs"
    and "map_of kvs k = None"
  shows "view_research b s = Inl (KeyError k)"
  using assms by (simp add: view_research_def and_then_def)

lemma view_research_export:
  assumes "selected_research s = Some k"
    and "py_getitem (research_results s) k = Inr r"
  shows "view_research True s
           = and_then (py_getitem r ''topic'') (\<lambda>topic.
             and_then (py_getitem r ''focus_areas'') (\<lambda>focus.
             and_then (py_getitem r ''results'') (\<lambda>results.
             and_then (md_content r) (\<lambda>md.
             and_then (file_name r) (\<lambda>name.
               Inr (s\<lparr>trace := trace s @ [StHeader (''Research Results: '' @ py_str topic),
                                           StSubheader ''Focus Areas'', StWrite focus,
                                           StSubheader ''Results'', StJson results,
                                           StDownloadButton ''Download Markdown'' md name
                                             ''text/markdown'']\<rparr>))))))"
  using assms by (simp add: view_research_def and_then_def emit_def split: sum.splits)

lemma replace_char_absent: "a \<noteq> b \<Longrightarrow> a \<notin> set (replace_char a b s)"
  by (auto simp: replace_char_def)

subsection \<open>The store and the timestamp\<close>

lemma map_of_dict_set: "map_of (dict_set kvs k v) = (map_of kvs)(k \<mapsto> v)"
  by (induction kvs) (auto simp: fun_eq_iff)

lemma length_dict_set:
  "length (dict_set kvs k v) = (if k \<in> fst ` set kvs then length kvs else Suc (length kvs))"
  by (induction kvs) force+

lemma keys_dict_set:
  "map fst (dict_set kvs k v) = (if k \<in> fst ` set kvs then map fst kvs else map fst kvs @ [k])"
  by (induction kvs) force+

lemma is_digit_zero: "is_digit CHR ''0''"
  by (simp add: is_digit_def)

lemma pad_digits: "list_all is_digit (pad w n)"
  using dec_of_nat_digits[of n] by (auto simp: pad_def list_all_iff is_digit_zero)

lemma length_pad: "n < 10 ^ w \<Longrightarrow> 0 < w \<Longrightarrow> length (pad w n) = w"
  using length_dec_of_nat[of n w] by (simp add: pad_def)

lemma pad_two:
  assumes "n < 100"
  shows "\<exists>a b. pad 2 n = [a, b] \<and> is_digit a \<and> is_digit b"
proof -
  have "length (pad 2 n) = 2" using assms by (simp add: length_pad)
  then obtain a b where "pad 2 n = [a, b]"
    by (auto simp: numeral_2_eq_2 length_Suc_conv)
  then show ?thesis using pad_digits[of 2 n] by simp
qed

lemma pad_four:
  assumes "n < 10000"
  shows "\<exists>a b c d. pad 4 n = [a, b, c, d] \<and> is_digit a \<and> is_digit b \<and> is_digit c \<and> is_digit d"
proof -
  have "length (pad 4 n) = Suc (Suc (Suc (Suc 0)))" using assms by (simp add: length_pad)
  then obtain a b c d where "pad 4 n = [a, b, c, d]"
    by (auto simp: length_Suc_conv)
  then show ?thesis using pad_digits[of 4 n] by simp
qed

lemma timestamp_format_strftime:
  assumes "valid_datetime d"
  shows "timestamp_format (strftime d)"
proof -
  obtain y1 y2 y3 y4 where y: "pad 4 (year d) = [y1, y2, y3, y4]"
    "is_digit y1" "is_digit y2" "is_digit y3" "is_digit y4"
    using pad_four[of "year d"] assms by (auto simp: valid_datetime_def)
  obtain m1 m2 where m: "pad 2 (month d) = [m1, m2]" "is_digit m1" "is_digit m2"
    using pad_two[of "month d"] assms by (auto simp: valid_datetime_def)
  obtain d1 d2 where dd: "pad 2 (day d) = [d1, d2]" "is_digit d1" "is_digit d2"
    using pad_two[of "day d"] assms by (auto simp: valid_datetime_def)
  obtain h1 h2 where h: "pad 2 (hour d) = [h1, h2]" "is_digit h1" "is_digit h2"
    using pad_two[of "hour d"] assms by (auto simp: valid_datetime_def)
  obtain n1 n2 where n: "pad 2 (minute d) = [n1, n2]" "is_digit n1" "is_digit n2"
    using pad_two[of "minute d"] assms by (auto simp: valid_datetime_def)
  obtain s1 s2 where s: "pad 2 (second d) = [s1, s2]" "is_digit s1" "is_digit s2"
    using pad_two[of "second d"] assms by (auto simp: valid_datetime_def)
  show ?thesis
    unfolding strftime_def timestamp_format_def y(1) m(1) dd(1) h(1) n(1) s(1)
    using y(2-) m(2-) dd(2-) h(2-) n(2-) s(2-) by simp
qed

lemma conduct_research_returns:
  assumes "key_present s"
    and "lab_init e (key_of s) ''gpt-4o'' = None"
    and "lab_conduct e (key_of s) ''gpt-4o'' topic (build_task_notes focus) = Inr results"
    and "research_results s = JObj kvs"
  shows "conduct_research e topic focus s
           = ((True, ''Research completed successfully!''),
              s\<lparr>research_results :=
                   JObj (dict_set kvs (strftime (now e))
                           (JObj [(''topic'', JStr topic), (''focus_areas'', JStr focus),
                                  (''results'', results)])),
                 results_file :=
                   (if disk_writable e then
                      Some (json_dumps 4
                              (JObj (dict_set kvs (strftime (now e))
                                       (JObj [(''topic'', JStr topic), (''focus_areas'', JStr focus),
                                              (''results'', results)]))))
                    else results_file s),
                 trace := trace s @ [LabInit (key_of s) ''gpt-4o'',
                                     StSpinner ''Conducting research...'',
                                     LabConduct topic (build_task_notes focus),
                                     OpenWrite ''research_results.json'']\<rparr>)"
  using assms by (simp add: conduct_research_def emit_def Let_def save_results_def)

lemma strftime_sample_clock: "strftime sample_clock = ''2024-03-09 07:05:00''"
  by code_simp

section \<open>The claims\<close>



text \<open>
  C2. Without an API key in the session, \<open>conduct_research\<close> returns
  \<open>(False, "API key required")\<close> and shows an error; the store and the file stay as they
  were, and the only event is the error: the library is not called and no file is opened.
\<close>

theorem conduct_research_without_key:
  assumes "\<not> key_present s"
  shows "fst (conduct_research e topic focus s) = (False, ''API key required'')
    \<and> research_results (snd (conduct_research e topic focus s)) = research_results s
    \<and> results_file (snd (conduct_research e topic focus s)) = results_file s
    \<and> trace (snd (conduct_research e topic focus s))
        = trace s @ [StError ''Please enter your OpenAI API key in the sidebar first!'']"
  using assms by (simp add: conduct_research_def emit_def)

theorem conduct_research_without_key_witness:
  "\<not> key_present fresh_app
   \<and> fst (conduct_research sample_env ''Graph Neural Networks'' ''scalability'' fresh_app)
       = (False, ''API key required'')
   \<and> research_results (snd (conduct_research sample_env ''Graph Neural Networks'' ''scalability'' fresh_app))
       = JObj []
   \<and> results_file (snd (conduct_research sample_env ''Graph Neural Networks'' ''scalability'' fresh_app))
       = None
   \<and> trace (snd (conduct_research sample_env ''Graph Neural Networks'' ''scalability'' fresh_app))
       = [StError ''Please enter your OpenAI API key in the sidebar first!'']"
proof -
  have k: "\<not> key_present fresh_app"
    by (simp add: key_present_def fresh_app_def init_session_def)
  from conduct_research_without_key[OF k, of sample_env "''Graph Neural Networks''" "''scalability''"] k
  show ?thesis by (simp add: fresh_app_def init_session_def load_results_def)
qed

text \<open>
  C3. When the research library raises, from its constructor or from its
  \<open>conduct_research\<close>, the call returns \<open>False\<close> with a message that ends with the
  exception's message, and neither the store nor the file changes.
\<close>

theorem conduct_research_library_raises:
  assumes "key_present s"
    and "lab_init e (key_of s) ''gpt-4o'' = Some msg
         \<or> (lab_init e (key_of s) ''gpt-4o'' = None
            \<and> lab_conduct e (key_of s) ''gpt-4o'' topic (build_task_notes focus) = Inl msg)"
  shows "fst (conduct_research e topic focus s) = (False, ''Error during research: '' @ msg)
    \<and> research_results (snd (conduct_research e topic focus s)) = research_results s
    \<and> results_file (snd (conduct_research e topic focus s)) = results_file s"
  using assms by (auto simp: conduct_research_def emit_def Let_def)

theorem conduct_research_library_raises_witness:
  "key_present sample_app
   \<and> lab_init failing_env (key_of sample_app) ''gpt-4o'' = None
   \<and> lab_conduct failing_env (key_of sample_app) ''gpt-4o'' ''Graph Neural Networks''
        (build_task_notes ''scalability'') = Inl ''rate limit exceeded''
   \<and> fst (conduct_research failing_env ''Graph Neural Networks'' ''scalability'' sample_app)
       = (False, ''Error during research: rate limit exceeded'')
   \<and> research_results (snd (conduct_research failing_env ''Graph Neural Networks'' ''scalability'' sample_app))
       = sample_store
   \<and> results_file (snd (conduct_research failing_env ''Graph Neural Networks'' ''scalability'' sample_app))
       = None"
proof -
  have k: "key_present sample_app" by (simp add: key_present_def sample_app_def)
  have i: "lab_init failing_env (key_of sample_app) ''gpt-4o'' = None"
    by (simp add: failing_env_def sample_env_def)
  have c: "lab_conduct failing_env (key_of sample_app) ''gpt-4o'' ''Graph Neural Networks''
        (build_task_notes ''scalability'') = Inl ''rate limit exceeded''"
    by (simp add: failing_env_def sample_env_def)
  from conduct_research_library_raises[OF k disjI2, OF conjI, OF i c] k i c
  show ?thesis by (simp add: sample_app_def)
qed

text \<open>
  C9. The file \<open>save_results\<close> leaves behind depends on the store and the disk only: two
  sessions with the same store on the same disk leave the same file, whatever their API
  keys (and their views and selections) are.
\<close>

theorem save_results_ignores_api_key:
  assumes "research_results s1 = research_results s2" and "results_file s1 = results_file s2"
  shows "results_file (save_results e s1) = results_file (save_results e s2)"
  using assms by (simp add: save_results_def emit_def Let_def)

theorem save_results_ignores_api_key_witness:
  "research_results sample_app = research_results (sample_app\<lparr>api_key := Some ''another-key''\<rparr>)
   \<and> results_file sample_app = results_file (sample_app\<lparr>api_key := Some ''another-key''\<rparr>)
   \<and> api_key sample_app \<noteq> api_key (sample_app\<lparr>api_key := Some ''another-key''\<rparr>)
   \<and> results_file (save_results sample_env sample_app)
       = results_file (save_results sample_env (sample_app\<lparr>api_key := Some ''another-key''\<rparr>))"
proof -
  have a: "research_results sample_app = research_results (sample_app\<lparr>api_key := Some ''another-key''\<rparr>)"
    by simp
  have b: "results_file sample_app = results_file (sample_app\<lparr>api_key := Some ''another-key''\<rparr>)"
    by simp
  have c: "api_key sample_app \<noteq> api_key (sample_app\<lparr>api_key := Some ''another-key''\<rparr>)"
    by (simp add: sample_app_def)
  from save_results_ignores_api_key[OF a b, of sample_env] a b c show ?thesis by blast
qed

text \<open>
  C8. A submission with an API key and an empty topic or empty focus areas does nothing:
  the state after it is the state before it, so no message is shown, the library is not
  called and the store gains no record.
\<close>

theorem research_form_empty_field:
  assumes "key_present s" and "topic = [] \<or> focus = []"
  shows "research_form e topic focus True s = s"
  using assms by (auto simp: research_form_def)

theorem research_form_empty_field_witness:
  "key_present sample_app
   \<and> research_form sample_env [] ''scalability'' True sample_app = sample_app"
proof -
  have k: "key_present sample_app" by (simp add: key_present_def sample_app_def)
  from research_form_empty_field[OF k disjI1, of "[]" sample_env "''scalability''"] k
  show ?thesis by simp
qed

text \<open>
  C4. When the key is present and the library is constructed, the task notes passed to the
  library's \<open>conduct_research\<close> hold, as focus areas, the pieces of the input between its
  commas (joined by commas the pieces give the input back, and no piece holds a comma),
  each stripped of the whitespace at its ends, and the fixed experiment preferences
  \<open>small\<close>, \<open>medium\<close>, \<open>[accuracy, perplexity]\<close>.
\<close>

theorem task_notes_passed_to_library:
  assumes "key_present s" and "lab_init e (key_of s) ''gpt-4o'' = None"
  shows "(\<exists>after. trace (snd (conduct_research e topic focus s))
            = trace s @ [LabInit (key_of s) ''gpt-4o'', StSpinner ''Conducting research...'',
                         LabConduct topic (build_task_notes focus)] @ after)
    \<and> focus_areas (build_task_notes focus) = map py_strip (split_on CHR '','' focus)
    \<and> join '','' (split_on CHR '','' focus) = focus
    \<and> list_all (\<lambda>p. CHR '','' \<notin> set p) (split_on CHR '','' focus)
    \<and> length (focus_areas (build_task_notes focus)) = Suc (count_list focus CHR '','')
    \<and> list_all (\<lambda>a. a = [] \<or> (\<not> py_isspace (hd a) \<and> \<not> py_isspace (last a)))
          (focus_areas (build_task_notes focus))
    \<and> experiment_preferences (build_task_notes focus)
        = \<lparr>dataset_size = ''small'', model_complexity = ''medium'',
           evaluation_metrics = [''accuracy'', ''perplexity'']\<rparr>"
proof -
  have tr: "\<exists>after. trace (snd (conduct_research e topic focus s))
            = trace s @ [LabInit (key_of s) ''gpt-4o'', StSpinner ''Conducting research...'',
                         LabConduct topic (build_task_notes focus)] @ after"
    using assms
    by (auto simp: conduct_research_def emit_def Let_def save_results_def
        split: sum.splits)
  have ends: "list_all (\<lambda>a. a = [] \<or> (\<not> py_isspace (hd a) \<and> \<not> py_isspace (last a)))
          (focus_areas (build_task_notes focus))"
    using py_strip_ends by (simp add: build_task_notes_def list_all_iff)
  have nosep: "list_all (\<lambda>p. CHR '','' \<notin> set p) (split_on CHR '','' focus)"
    using split_on_no_sep by (simp add: list_all_iff)
  show ?thesis using tr ends nosep
    by (simp add: build_task_notes_def join_split_on length_split_on)
qed

theorem task_notes_passed_to_library_witness:
  "key_present sample_app \<and> lab_init sample_env (key_of sample_app) ''gpt-4o'' = None
   \<and> LabConduct ''Graph Neural Networks''
        \<lparr>focus_areas = [''scalability'', ''robustness''],
         experiment_preferences =
           \<lparr>dataset_size = ''small'', model_complexity = ''medium'',
            evaluation_metrics = [''accuracy'', ''perplexity'']\<rparr>\<rparr>
       \<in> set (trace (snd (conduct_research sample_env ''Graph Neural Networks''
                            ''scalability, robustness'' sample_app)))"
proof -
  have k: "key_present sample_app" by (simp add: key_present_def sample_app_def)
  have i: "lab_init sample_env (key_of sample_app) ''gpt-4o'' = None"
    by (simp add: sample_env_def)
  have n: "build_task_notes ''scalability, robustness''
             = \<lparr>focus_areas = [''scalability'', ''robustness''],
                experiment_preferences =
                  \<lparr>dataset_size = ''small'', model_complexity = ''medium'',
                   evaluation_metrics = [''accuracy'', ''perplexity'']\<rparr>\<rparr>"
    by (simp add: build_task_notes_def py_strip_def py_isspace_def)
  from task_notes_passed_to_library[OF k i, of "''Graph Neural Networks''" "''scalability, robustness''"]
  obtain after where "trace (snd (conduct_research sample_env ''Graph Neural Networks''
                            ''scalability, robustness'' sample_app))
            = trace sample_app @ [LabInit (key_of sample_app) ''gpt-4o'', StSpinner ''Conducting research...'',
                         LabConduct ''Graph Neural Networks'' (build_task_notes ''scalability, robustness'')] @ after"
    by blast
  then show ?thesis using k i n by simp
qed

text \<open>
  C10. When \<open>selected_research\<close> is set to a key of the store, the viewer finds the record
  under that key and shows its topic, its focus areas and its results, in this order and
  without an exception.
\<close>

theorem view_research_selected_key:
  assumes "selected_research s = Some k"
    and "research_results s = JObj kvs"
    and "map_of kvs k = Some (JObj r)"
    and "map_of r ''topic'' = Some topic"
    and "map_of r ''focus_areas'' = Some focus"
    and "map_of r ''results'' = Some results"
  shows "py_getitem (research_results s) k = Inr (JObj r)
    \<and> view_research False s
        = Inr (s\<lparr>trace := trace s @ [StHeader (''Research Results: '' @ py_str topic),
                                     StSubheader ''Focus Areas'', StWrite focus,
                                     StSubheader ''Results'', StJson results]\<rparr>)"
proof -
  have g: "py_getitem (research_results s) k = Inr (JObj r)" using assms(2,3) by simp
  from view_research_record[OF assms(1) g assms(4,5,6)] g show ?thesis by simp
qed

theorem view_research_selected_key_witness:
  "selected_research sample_app = Some ''2024-03-09 07:05:00''
   \<and> research_results sample_app = JObj [(''2024-03-09 07:05:00'', sample_record)]
   \<and> view_research False sample_app
       = Inr (sample_app\<lparr>trace := [StHeader ''Research Results: Graph Neural Networks'',
                                    StSubheader ''Focus Areas'',
                                    StWrite (JStr ''scalability, robustness''),
                                    StSubheader ''Results'',
                                    StJson (JObj [(''accuracy'', JInt 1)])]\<rparr>)"
proof -
  have a: "selected_research sample_app = Some ''2024-03-09 07:05:00''"
    by (simp add: sample_app_def)
  have b: "research_results sample_app = JObj [(''2024-03-09 07:05:00'', sample_record)]"
    by (simp add: sample_app_def sample_store_def)
  have c: "map_of [(''2024-03-09 07:05:00'', sample_record)] ''2024-03-09 07:05:00''
             = Some (JObj [(''topic'', JStr ''Graph Neural Networks''),
                           (''focus_areas'', JStr ''scalability, robustness''),
                           (''results'', sample_results)])"
    by (simp add: sample_record_def)
  have t: "map_of [(''topic'', JStr ''Graph Neural Networks''),
                   (''focus_areas'', JStr ''scalability, robustness''),
                   (''results'', sample_results)] ''topic'' = Some (JStr ''Graph Neural Networks'')"
    by simp
  have f: "map_of [(''topic'', JStr ''Graph Neural Networks''),
                   (''focus_areas'', JStr ''scalability, robustness''),
                   (''results'', sample_results)] ''focus_areas''
             = Some (JStr ''scalability, robustness'')"
    by simp
  have r: "map_of [(''topic'', JStr ''Graph Neural Networks''),
                   (''focus_areas'', JStr ''scalability, robustness''),
                   (''results'', sample_results)] ''results'' = Some sample_results"
    by simp
  from view_research_selected_key[OF a b c t f r] a b
  show ?thesis by (simp add: py_str_def sample_results_def sample_app_def)
qed

text \<open>
  C6. The export of a record whose topic and focus areas are strings: the Markdown document
  is the title line with the topic, an empty line, the heading of the focus areas and the
  stored string, an empty line, the heading of the results and the results written by
  \<open>json.dumps\<close> with an indent of 2 between the fences of a \<open>json\<close> code block (the decoder
  reads the block back as the results). The download is named \<open>research_\<close>, the topic in
  lower case with an underscore for every space, \<open>.md\<close>; the viewer offers this document
  under this name with the type \<open>text/markdown\<close>.
\<close>

theorem export_markdown_layout:
  assumes "selected_research s = Some k"
    and "research_results s = JObj kvs"
    and "map_of kvs k = Some (JObj r)"
    and "map_of r ''topic'' = Some (JStr t)"
    and "map_of r ''focus_areas'' = Some (JStr f)"
    and "map_of r ''results'' = Some res"
  shows "md_content (JObj r)
           = Inr (''# Research Results: '' @ t @ [CHR 0x0A, CHR 0x0A]
                  @ ''## Focus Areas'' @ [CHR 0x0A] @ f @ [CHR 0x0A, CHR 0x0A]
                  @ ''## Results'' @ [CHR 0x0A] @ ''```json'' @ [CHR 0x0A]
                  @ json_dumps 2 res @ [CHR 0x0A] @ ''```'')
    \<and> (wf_json res \<longrightarrow> json_loads (json_dumps 2 res) = Some res)
    \<and> file_name (JObj r)
           = Inr (''research_'' @ replace_char CHR '' '' CHR ''_'' (py_lower t) @ ''.md'')
    \<and> CHR '' '' \<notin> set (replace_char CHR '' '' CHR ''_'' (py_lower t))
    \<and> length (replace_char CHR '' '' CHR ''_'' (py_lower t)) = length t
    \<and> (\<exists>s'. view_research True s = Inr s'
          \<and> last (trace s')
              = StDownloadButton ''Download Markdown''
                  (''# Research Results: '' @ t @ [CHR 0x0A, CHR 0x0A]
                   @ ''## Focus Areas'' @ [CHR 0x0A] @ f @ [CHR 0x0A, CHR 0x0A]
                   @ ''## Results'' @ [CHR 0x0A] @ ''```json'' @ [CHR 0x0A]
                   @ json_dumps 2 res @ [CHR 0x0A] @ ''```'')
                  (''research_'' @ replace_char CHR '' '' CHR ''_'' (py_lower t) @ ''.md'')
                  ''text/markdown'')"
proof -
  have md: "md_content (JObj r)
           = Inr (''# Research Results: '' @ t @ [CHR 0x0A, CHR 0x0A]
                  @ ''## Focus Areas'' @ [CHR 0x0A] @ f @ [CHR 0x0A, CHR 0x0A]
                  @ ''## Results'' @ [CHR 0x0A] @ ''```json'' @ [CHR 0x0A]
                  @ json_dumps 2 res @ [CHR 0x0A] @ ''```'')"
    using assms(4,5,6) by (simp add: md_content_def and_then_def py_str_def)
  have fn: "file_name (JObj r)
           = Inr (''research_'' @ replace_char CHR '' '' CHR ''_'' (py_lower t) @ ''.md'')"
    using assms(4) by (simp add: file_name_def and_then_def)
  have g: "py_getitem (research_results s) k = Inr (JObj r)" using assms(2,3) by simp
  have v: "\<exists>s'. view_research True s = Inr s'
          \<and> last (trace s')
              = StDownloadButton ''Download Markdown''
                  (''# Research Results: '' @ t @ [CHR 0x0A, CHR 0x0A]
                   @ ''## Focus Areas'' @ [CHR 0x0A] @ f @ [CHR 0x0A, CHR 0x0A]
                   @ ''## Results'' @ [CHR 0x0A] @ ''```json'' @ [CHR 0x0A]
                   @ json_dumps 2 res @ [CHR 0x0A] @ ''```'')
                  (''research_'' @ replace_char CHR '' '' CHR ''_'' (py_lower t) @ ''.md'')
                  ''text/markdown''"
    unfolding view_research_export[OF assms(1) g] md fn
    using assms(4,5,6) by (simp add: and_then_def)
  have sp: "CHR '' '' \<notin> set (replace_char CHR '' '' CHR ''_'' (py_lower t))"
    by (rule replace_char_absent) simp
  have ln: "length (replace_char CHR '' '' CHR ''_'' (py_lower t)) = length t"
    by (simp add: replace_char_def py_lower_def)
  show ?thesis using md fn v sp ln json_loads_dumps[of res 2] by blast
qed

theorem export_markdown_layout_witness:
  "selected_research sample_app = Some ''2024-03-09 07:05:00''
   \<and> research_results sample_app = JObj [(''2024-03-09 07:05:00'', sample_record)]
   \<and> wf_json sample_results
   \<and> md_content sample_record
       = Inr (''# Research Results: Graph Neural Networks'' @ [CHR 0x0A, CHR 0x0A]
              @ ''## Focus Areas'' @ [CHR 0x0A] @ ''scalability, robustness'' @ [CHR 0x0A, CHR 0x0A]
              @ ''## Results'' @ [CHR 0x0A] @ ''```json'' @ [CHR 0x0A]
              @ ''{'' @ [CHR 0x0A] @ ''  '' @ [CHR 0x22] @ ''accuracy'' @ [CHR 0x22] @ '': 1''
              @ [CHR 0x0A] @ ''}'' @ [CHR 0x0A] @ ''```'')
   \<and> json_loads (json_dumps 2 sample_results) = Some sample_results
   \<and> file_name sample_record = Inr ''research_graph_neural_networks.md''"
proof -
  have a: "selected_research sample_app = Some ''2024-03-09 07:05:00''"
    by (simp add: sample_app_def)
  have b: "research_results sample_app = JObj [(''2024-03-09 07:05:00'', sample_record)]"
    by (simp add: sample_app_def sample_store_def)
  have c: "map_of [(''2024-03-09 07:05:00'', sample_record)] ''2024-03-09 07:05:00''
             = Some (JObj [(''topic'', JStr ''Graph Neural Networks''),
                           (''focus_areas'', JStr ''scalability, robustness''),
                           (''results'', sample_results)])"
    by (simp add: sample_record_def)
  have t: "map_of [(''topic'', JStr ''Graph Neural Networks''),
                   (''focus_areas'', JStr ''scalability, robustness''),
                   (''results'', sample_results)] ''topic'' = Some (JStr ''Graph Neural Networks'')"
    by simp
  have f: "map_of [(''topic'', JStr ''Graph Neural Networks''),
                   (''focus_areas'', JStr ''scalability, robustness''),
                   (''results'', sample_results)] ''focus_areas''
             = Some (JStr ''scalability, robustness'')"
    by simp
  have r: "map_of [(''topic'', JStr ''Graph Neural Networks''),
                   (''focus_areas'', JStr ''scalability, robustness''),
                   (''results'', sample_results)] ''results'' = Some sample_results"
    by simp
  have w: "wf_json sample_results" by (simp add: sample_results_def)
  have d: "json_dumps 2 sample_results
             = ''{'' @ [CHR 0x0A] @ ''  '' @ [CHR 0x22] @ ''accuracy'' @ [CHR 0x22] @ '': 1''
               @ [CHR 0x0A] @ ''}''"
    by code_simp
  have l: "replace_char CHR '' '' CHR ''_'' (py_lower ''Graph Neural Networks'')
             = ''graph_neural_networks''"
    by code_simp
  from export_markdown_layout[OF a b c t f r] a b w
  show ?thesis unfolding d l sample_record_def[symmetric] by simp
qed

text \<open>
  C7. The export is a function of the record alone. Two sessions that show the same record,
  whatever else they hold (API key, other records, file, earlier events), end alike: both
  raise the same exception, or both offer a download with the same Markdown document and the
  same name after the same new events. The export leaves the selection and the store as they
  were, so the second session can be the first one after its export: exporting twice gives
  the same document twice.
\<close>

theorem export_twice_same_markdown:
  assumes "selected_research s1 = Some k1"
    and "py_getitem (research_results s1) k1 = Inr r"
    and "selected_research s2 = Some k2"
    and "py_getitem (research_results s2) k2 = Inr r"
  shows "(\<forall>err. view_research True s1 = Inl err \<longrightarrow> view_research True s2 = Inl err)
    \<and> (\<forall>t1. view_research True s1 = Inr t1 \<longrightarrow>
          (\<exists>t2 md name. view_research True s2 = Inr t2
             \<and> md_content r = Inr md \<and> file_name r = Inr name
             \<and> last (trace t1) = StDownloadButton ''Download Markdown'' md name ''text/markdown''
             \<and> last (trace t2) = StDownloadButton ''Download Markdown'' md name ''text/markdown''
             \<and> drop (length (trace s1)) (trace t1) = drop (length (trace s2)) (trace t2)
             \<and> selected_research t1 = selected_research s1
             \<and> research_results t1 = research_results s1))"
  unfolding view_research_export[OF assms(1,2)] view_research_export[OF assms(3,4)]
  by (auto simp: and_then_def split: sum.splits)

theorem export_twice_same_markdown_witness:
  "\<exists>t1 t2 md.
     view_research True sample_app = Inr t1
     \<and> view_research True (t1\<lparr>api_key := None\<rparr>) = Inr t2
     \<and> api_key sample_app \<noteq> api_key (t1\<lparr>api_key := None\<rparr>)
     \<and> trace sample_app \<noteq> trace (t1\<lparr>api_key := None\<rparr>)
     \<and> last (trace t1)
         = StDownloadButton ''Download Markdown'' md ''research_graph_neural_networks.md''
             ''text/markdown''
     \<and> last (trace t2)
         = StDownloadButton ''Download Markdown'' md ''research_graph_neural_networks.md''
             ''text/markdown''"
proof -
  have a: "selected_research sample_app = Some ''2024-03-09 07:05:00''"
    by (simp add: sample_app_def)
  have g: "py_getitem (research_results sample_app) ''2024-03-09 07:05:00'' = Inr sample_record"
    by (simp add: sample_app_def sample_store_def)
  have l: "replace_char CHR '' '' CHR ''_'' (py_lower ''Graph Neural Networks'')
             = ''graph_neural_networks''"
    by code_simp
  have n: "file_name sample_record = Inr ''research_graph_neural_networks.md''"
    by (simp add: file_name_def and_then_def sample_record_def l)
  have "\<exists>t1. view_research True sample_app = Inr t1"
    unfolding view_research_export[OF a g]
    by (simp add: and_then_def md_content_def n) (simp add: sample_record_def)
  then obtain t1 where v: "view_research True sample_app = Inr t1" ..
  from export_twice_same_markdown[OF a g a g] v
  have k: "selected_research t1 = Some ''2024-03-09 07:05:00''"
    and s: "research_results t1 = research_results sample_app"
    using a by auto
  have a2: "selected_research (t1\<lparr>api_key := None\<rparr>) = Some ''2024-03-09 07:05:00''"
    using k by simp
  have g2: "py_getitem (research_results (t1\<lparr>api_key := None\<rparr>)) ''2024-03-09 07:05:00''
              = Inr sample_record"
    using s g by simp
  from export_twice_same_markdown[OF a g a2 g2] v
  obtain t2 md name where r: "view_research True (t1\<lparr>api_key := None\<rparr>) = Inr t2"
    "md_content sample_record = Inr md" "file_name sample_record = Inr name"
    "last (trace t1) = StDownloadButton ''Download Markdown'' md name ''text/markdown''"
    "last (trace t2) = StDownloadButton ''Download Markdown'' md name ''text/markdown''"
    by blast
  have nm: "name = ''research_graph_neural_networks.md''" using r(3) n by simp
  have ne: "trace t1 \<noteq> []"
    using v unfolding view_research_export[OF a g]
    by (auto simp: and_then_def split: sum.splits)
  have k1: "api_key sample_app \<noteq> api_key (t1\<lparr>api_key := None\<rparr>)"
    by (simp add: sample_app_def)
  have k2: "trace sample_app \<noteq> trace (t1\<lparr>api_key := None\<rparr>)"
    using ne by (simp add: sample_app_def)
  show ?thesis using v r(1,4,5) nm k1 k2 by blast
qed

text \<open>
  C1. A counterexample to the new, previously unused key: the store holds a record under
  \<open>2024-03-09 07:05:00\<close> and the clock reads this second when the library returns. The call
  succeeds, and the store holds one record as before: the record of the call has taken the
  place of the earlier one.
\<close>

theorem conduct_research_timestamp_reused:
  "key_present sample_app
   \<and> lab_init sample_env (key_of sample_app) ''gpt-4o'' = None
   \<and> lab_conduct sample_env (key_of sample_app) ''gpt-4o'' ''Transformers''
        (build_task_notes ''speed'') = Inr sample_results
   \<and> research_results sample_app
       = JObj [(''2024-03-09 07:05:00'',
                JObj [(''topic'', JStr ''Graph Neural Networks''),
                      (''focus_areas'', JStr ''scalability, robustness''),
                      (''results'', sample_results)])]
   \<and> strftime (now sample_env) = ''2024-03-09 07:05:00''
   \<and> fst (conduct_research sample_env ''Transformers'' ''speed'' sample_app)
       = (True, ''Research completed successfully!'')
   \<and> research_results (snd (conduct_research sample_env ''Transformers'' ''speed'' sample_app))
       = JObj [(''2024-03-09 07:05:00'',
                JObj [(''topic'', JStr ''Transformers''), (''focus_areas'', JStr ''speed''),
                      (''results'', sample_results)])]"
proof -
  have k: "key_present sample_app" by (simp add: key_present_def sample_app_def)
  have i: "lab_init sample_env (key_of sample_app) ''gpt-4o'' = None"
    by (simp add: sample_env_def)
  have c: "lab_conduct sample_env (key_of sample_app) ''gpt-4o'' ''Transformers''
        (build_task_notes ''speed'') = Inr sample_results"
    by (simp add: sample_env_def)
  have r: "research_results sample_app
       = JObj [(''2024-03-09 07:05:00'',
                JObj [(''topic'', JStr ''Graph Neural Networks''),
                      (''focus_areas'', JStr ''scalability, robustness''),
                      (''results'', sample_results)])]"
    by (simp add: sample_app_def sample_store_def sample_record_def)
  have t: "strftime (now sample_env) = ''2024-03-09 07:05:00''"
    using strftime_sample_clock by (simp add: sample_env_def)
  show ?thesis
    unfolding conduct_research_returns[OF k i c r] t using k i c r by simp
qed

text \<open>
  C1, amended. When the key is present, the library returns and the store is a dictionary,
  the call returns \<open>(True, "Research completed successfully!")\<close>; the key is the reading of
  the clock in the format \<open>YYYY-MM-DD HH:MM:SS\<close>; the store after the call is the store
  before it with the record (topic and focus areas as submitted, the results of the
  library) assigned to that key: every other key keeps its record, and the store grows by
  one record, placed last, when the key was not in use, and keeps its size, the record
  replacing the earlier one, when it was. The file is then opened for writing, after the
  calls of the library, and holds the new store when the disk can be written.
\<close>

theorem conduct_research_success:
  assumes "key_present s"
    and "lab_init e (key_of s) ''gpt-4o'' = None"
    and "lab_conduct e (key_of s) ''gpt-4o'' topic (build_task_notes focus) = Inr results"
    and "research_results s = JObj kvs"
    and "valid_datetime (now e)"
    and "ts = strftime (now e)"
    and "record = JObj [(''topic'', JStr topic), (''focus_areas'', JStr focus),
                        (''results'', results)]"
    and "s' = snd (conduct_research e topic focus s)"
  shows "fst (conduct_research e topic focus s) = (True, ''Research completed successfully!'')
    \<and> timestamp_format ts
    \<and> research_results s' = JObj (dict_set kvs ts record)
    \<and> map_of (dict_set kvs ts record) = (map_of kvs)(ts \<mapsto> record)
    \<and> (if ts \<in> fst ` set kvs then length (dict_set kvs ts record) = length kvs
        else dict_set kvs ts record = kvs @ [(ts, record)])
    \<and> trace s' = trace s @ [LabInit (key_of s) ''gpt-4o'', StSpinner ''Conducting research...'',
                             LabConduct topic (build_task_notes focus),
                             OpenWrite ''research_results.json'']
    \<and> results_file s'
        = (if disk_writable e then Some (json_dumps 4 (JObj (dict_set kvs ts record)))
           else results_file s)"
proof -
  have f: "timestamp_format ts" using assms(5,6) by (simp add: timestamp_format_strftime)
  have l: "if ts \<in> fst ` set kvs then length (dict_set kvs ts record) = length kvs
        else dict_set kvs ts record = kvs @ [(ts, record)]"
    by (simp add: length_dict_set dict_set_fresh)
  note r = conduct_research_returns[OF assms(1-4), folded assms(6), folded assms(7)]
  have 1: "fst (conduct_research e topic focus s) = (True, ''Research completed successfully!'')"
    by (simp add: r)
  have 3: "research_results s' = JObj (dict_set kvs ts record)"
    unfolding assms(8) r by simp
  have 4: "map_of (dict_set kvs ts record) = (map_of kvs)(ts \<mapsto> record)"
    by (rule map_of_dict_set)
  have 6: "trace s' = trace s @ [LabInit (key_of s) ''gpt-4o'', StSpinner ''Conducting research...'',
                             LabConduct topic (build_task_notes focus),
                             OpenWrite ''research_results.json'']"
    unfolding assms(8) r by simp
  have 7: "results_file s'
        = (if disk_writable e then Some (json_dumps 4 (JObj (dict_set kvs ts record)))
           else results_file s)"
    unfolding assms(8) r by simp
  show ?thesis by (intro conjI) (rule 1 f 3 4 l 6 7)+
qed

theorem conduct_research_success_witness:
  "key_present (sample_app\<lparr>research_results := JObj []\<rparr>)
   \<and> valid_datetime (now sample_env)
   \<and> fst (conduct_research sample_env ''Graph Neural Networks'' ''scalability, robustness''
            (sample_app\<lparr>research_results := JObj []\<rparr>))
       = (True, ''Research completed successfully!'')
   \<and> timestamp_format ''2024-03-09 07:05:00''
   \<and> research_results
        (snd (conduct_research sample_env ''Graph Neural Networks'' ''scalability, robustness''
                (sample_app\<lparr>research_results := JObj []\<rparr>)))
       = JObj [(''2024-03-09 07:05:00'',
                JObj [(''topic'', JStr ''Graph Neural Networks''),
                      (''focus_areas'', JStr ''scalability, robustness''),
                      (''results'', JObj [(''accuracy'', JInt 1)])])]
   \<and> last (trace
        (snd (conduct_research sample_env ''Graph Neural Networks'' ''scalability, robustness''
                (sample_app\<lparr>research_results := JObj []\<rparr>))))
       = OpenWrite ''research_results.json''"
proof -
  let ?s = "sample_app\<lparr>research_results := JObj []\<rparr>"
  have k: "key_present ?s" by (simp add: key_present_def sample_app_def)
  have i: "lab_init sample_env (key_of ?s) ''gpt-4o'' = None"
    by (simp add: sample_env_def)
  have c: "lab_conduct sample_env (key_of ?s) ''gpt-4o'' ''Graph Neural Networks''
        (build_task_notes ''scalability, robustness'') = Inr (JObj [(''accuracy'', JInt 1)])"
    by (simp add: sample_env_def sample_results_def)
  have r: "research_results ?s = JObj []" by simp
  have v: "valid_datetime (now sample_env)"
    by (simp add: valid_datetime_def sample_env_def sample_clock_def)
  have t: "''2024-03-09 07:05:00'' = strftime (now sample_env)"
    using strftime_sample_clock by (simp add: sample_env_def)
  from conduct_research_success[OF k i c r v t refl refl] k v
  show ?thesis by simp
qed

end
